theory Spec2Isabelle
  imports Complex_Main "HOL-Library.Multiset"
begin

section \<open>The LoRA fine-tuning script with a confusion matrix\<close>

text \<open>
  A shallow embedding of \<^verbatim>\<open>fine-tunning/lora/lora-peft-confusion-matrix.py\<close>.
  The script is one linear pipeline: argument intake, loading and tokenizing three
  partitions, model assembly, a fixed number of train/test epochs, a final pass over the
  eval partition with a confusion matrix, and the JSON run summary.

  Exceptions are values of \<open>error\<close>; a computation returns the events it caused together
  with either the exception that ended it or its result. The neural network, the
  tokenizer, the random number generator, the file system and the clock are parameters
  (the record \<open>world\<close>). The library functions the script calls with a documented,
  deterministic meaning (\<^verbatim>\<open>sklearn.metrics.confusion_matrix\<close>, the
  \<^verbatim>\<open>evaluate\<close> accuracy metric, \<^verbatim>\<open>Dataset.map\<close>,
  \<^verbatim>\<open>DataLoader\<close>, \<^verbatim>\<open>strftime\<close>, \<^verbatim>\<open>sys.exit\<close>) are
  written out as that documentation describes them.
\<close>

subsection \<open>Errors\<close>

text \<open>
  \<^verbatim>\<open>sys.exit()\<close> raises \<^verbatim>\<open>SystemExit\<close> carrying its argument, which is
  \<^verbatim>\<open>None\<close> when the call has none. Every other exception is uncaught.
\<close>

datatype error =
    SystemExit "int option"
  | FileNotFoundError string
  | KeyError string
  | ValueError string
  | RuntimeError string
  | OSError string

subsection \<open>Events and computations\<close>

text \<open>
  The summary is the \<^verbatim>\<open>results\<close> dictionary as it stands when it is written; one field
  per key.
\<close>

record summary =
  r_batch_size :: nat
  r_model :: string
  r_epochs :: nat
  r_metrics :: "nat \<rightharpoonup> (string \<rightharpoonup> rat)"
  r_conjunto :: string
  r_obs :: string
  r_padding_side :: string
  r_train_size :: nat
  r_test_size :: nat
  r_eval_size :: nat
  r_n_labels :: nat
  r_validation_metric :: "string \<rightharpoonup> rat"
  r_date :: string
  r_processing_time :: rat

text \<open>
  What a run does to the outside, in order. \<open>TrainStep\<close>, \<open>TestStep\<close> and \<open>EvalStep\<close>
  carry the positions (in the partition) of the records of the batch the model was
  called on. The diagnostic prints of tensors, metrics and the model are left out: they
  touch no file.
\<close>

datatype event =
    Print string
  | FromPretrained string
  | LoadDataset string
  | LoadMetric string
  | TrainStep nat "nat list"
  | TestStep nat "nat list"
  | EvalStep "nat list"
  | ToCsv string "nat list list"
  | SaveFig string
  | JsonDump string summary nat

type_synonym 'a io = "event list \<times> (error + 'a)"

definition then_io :: "'a io \<Rightarrow> ('a \<Rightarrow> 'b io) \<Rightarrow> 'b io" where
  "then_io m f =
     (case m of
        (evs, Inl e) \<Rightarrow> (evs, Inl e)
      | (evs, Inr a) \<Rightarrow> (case f a of (evs', r) \<Rightarrow> (evs @ evs', r)))"

definition lift :: "error + 'a \<Rightarrow> 'a io" where
  "lift r = ([], r)"

text \<open>
  The exit status of the process: \<^verbatim>\<open>SystemExit(None)\<close> is status 0,
  \<^verbatim>\<open>SystemExit(n)\<close> is \<open>n\<close>, an uncaught exception is 1, a run that reaches the end
  is 0.
\<close>

definition exit_status :: "'a io \<Rightarrow> int" where
  "exit_status r =
     (case snd r of
        Inr _ \<Rightarrow> 0
      | Inl (SystemExit None) \<Rightarrow> 0
      | Inl (SystemExit (Some n)) \<Rightarrow> n
      | Inl _ \<Rightarrow> 1)"

definition is_file_io :: "event \<Rightarrow> bool" where
  "is_file_io ev = (case ev of Print _ \<Rightarrow> False | TrainStep _ _ \<Rightarrow> False
     | TestStep _ _ \<Rightarrow> False | EvalStep _ \<Rightarrow> False | _ \<Rightarrow> True)"

definition is_model_step :: "event \<Rightarrow> bool" where
  "is_model_step ev = (case ev of TrainStep _ _ \<Rightarrow> True | TestStep _ _ \<Rightarrow> True
     | EvalStep _ \<Rightarrow> True | _ \<Rightarrow> False)"

definition is_json_dump :: "event \<Rightarrow> bool" where
  "is_json_dump ev = (case ev of JsonDump _ _ _ \<Rightarrow> True | _ \<Rightarrow> False)"

subsection \<open>Settings, data and the world\<close>

text \<open>The block \<^verbatim>\<open>## Definindo configuracoes\<close>, as far as the pipeline reads it.\<close>

record settings =
  batch_size :: nat
  model_name_or_path :: string
  num_epochs :: nat
  padding_side :: string
  n_labels :: nat

definition script_settings :: settings where
  "script_settings =
     \<lparr>batch_size = 5, model_name_or_path = ''roberta-large'', num_epochs = 5,
      padding_side = ''right'', n_labels = 33\<rparr>"

text \<open>A record of a partition maps column names to values.\<close>

datatype cell = Str string | Num int | Seq "int list"

type_synonym row = "string \<rightharpoonup> cell"

record datetime =
  year :: nat
  month :: nat
  day :: nat
  hour :: nat
  minute :: nat
  second :: nat

text \<open>
  Everything the script takes from outside. \<open>tokenizer w text truncation max_length\<close>
  is the tokenizer's output for one text; \<open>train_step\<close> is forward pass, loss, backward
  pass, optimizer and scheduler step on one batch (\<open>None\<close> when any of them raises);
  \<open>forward w m batch\<close> gives the class scores \<open>logits i c\<close> of record \<open>i\<close> of the batch
  (\<open>None\<close> when the call raises); \<open>randperm w k n\<close> is the \<open>k\<close>-th permutation of
  \<open>[0..<n]\<close> the random sampler draws.
\<close>

record 'm world =
  argv :: "string list"
  parquet :: "string \<rightharpoonup> row list"
  can_write :: "string \<Rightarrow> bool"
  tokenizer :: "string \<Rightarrow> bool \<Rightarrow> nat \<Rightarrow> row"
  pretrained :: "string \<Rightarrow> nat \<Rightarrow> 'm"
  train_step :: "'m \<Rightarrow> row list \<Rightarrow> 'm option"
  forward :: "'m \<Rightarrow> row list \<Rightarrow> (nat \<Rightarrow> nat \<Rightarrow> real) option"
  randperm :: "nat \<Rightarrow> nat \<Rightarrow> nat list"
  start_time :: rat
  end_time :: rat
  now :: datetime

subsection \<open>Argument intake\<close>

definition usage :: string where
  "usage = ''Uso: python meu_script.py <conjunto> <obs-opcional>''"

definition read_args :: "string list \<Rightarrow> (string \<times> string) io" where
  "read_args av =
     (if length av < 2 then ([Print usage], Inl (SystemExit None))
      else ([], Inr (av ! 1, if length av > 2 then av ! 2 else [])))"

subsection \<open>Data preparation\<close>

definition train_file :: "string \<Rightarrow> string" where
  "train_file conjunto = ''preprocessing/train_conjunto_'' @ conjunto @ ''_output.parquet''"

definition test_file :: "string \<Rightarrow> string" where
  "test_file conjunto = ''preprocessing/test_conjunto_'' @ conjunto @ ''_output.parquet''"

definition eval_file :: "string \<Rightarrow> string" where
  "eval_file conjunto = ''preprocessing/eval_conjunto_'' @ conjunto @ ''_output.parquet''"

definition load_dataset :: "'m world \<Rightarrow> string \<Rightarrow> (row list) io" where
  "load_dataset w path =
     ([LoadDataset path],
      case parquet w path of
        None \<Rightarrow> Inl (FileNotFoundError path)
      | Some ds \<Rightarrow> Inr ds)"

definition tokenize :: "'m world \<Rightarrow> row \<Rightarrow> error + row" where
  "tokenize w examples =
     (case examples ''texto'' of
        None \<Rightarrow> Inl (KeyError ''texto'')
      | Some (Str texto) \<Rightarrow> Inr (tokenizer w texto True 512)
      | Some _ \<Rightarrow> Inl (ValueError ''text input must be of type str''))"

fun traverse :: "('a \<Rightarrow> error + 'b) \<Rightarrow> 'a list \<Rightarrow> error + 'b list" where
  "traverse f [] = Inr []"
| "traverse f (x # xs) =
     (case f x of
        Inl e \<Rightarrow> Inl e
      | Inr y \<Rightarrow> (case traverse f xs of Inl e \<Rightarrow> Inl e | Inr ys \<Rightarrow> Inr (y # ys)))"

text \<open>
  \<^verbatim>\<open>Dataset.map(function, batched=True, remove_columns=...)\<close>: a column to remove that
  the dataset does not have is refused before anything is mapped; each record loses the
  removed columns and is then updated with the function's output. All other columns
  stay.
\<close>

definition map_row :: "(row \<Rightarrow> error + row) \<Rightarrow> string list \<Rightarrow> row \<Rightarrow> error + row" where
  "map_row f remove_columns r =
     (case f r of
        Inl e \<Rightarrow> Inl e
      | Inr outputs \<Rightarrow> Inr ((r |` (- set remove_columns)) ++ outputs))"

definition dataset_map ::
  "(row \<Rightarrow> error + row) \<Rightarrow> string list \<Rightarrow> row list \<Rightarrow> error + row list" where
  "dataset_map f remove_columns ds =
     (if list_all (\<lambda>r. list_all (\<lambda>c. r c \<noteq> None) remove_columns) ds
      then traverse (map_row f remove_columns) ds
      else Inl (ValueError ''Column to remove not in the dataset''))"

definition column :: "row list \<Rightarrow> string \<Rightarrow> error + cell list" where
  "column ds c =
     traverse (\<lambda>r. case r c of None \<Rightarrow> Inl (KeyError c) | Some v \<Rightarrow> Inr v) ds"

text \<open>
  \<^verbatim>\<open>DataLoader(dataset, shuffle=..., batch_size=...)\<close>. The random sampler of a
  shuffling loader refuses an empty dataset, and a batch size that is not positive is
  refused. An iteration draws the order of the positions (a fresh random
  permutation when \<open>shuffle\<close> is set, the positions in order otherwise), groups them
  \<open>batch_size\<close> at a time and fetches the records at the positions of each group. The
  padding of a batch to its longest record (\<^verbatim>\<open>collate_fn\<close>) is part of the model
  calls of \<open>world\<close>.
\<close>

record loader =
  dataset :: "row list"
  shuffle :: bool
  dl_batch_size :: nat

definition DataLoader :: "row list \<Rightarrow> bool \<Rightarrow> nat \<Rightarrow> error + loader" where
  "DataLoader ds sh bs =
     (if sh \<and> ds = [] then Inl (ValueError ''num_samples should be a positive integer value'')
      else if bs = 0 then Inl (ValueError ''batch_size should be a positive integer value'')
      else Inr \<lparr>dataset = ds, shuffle = sh, dl_batch_size = bs\<rparr>)"

fun chunks :: "nat \<Rightarrow> 'a list \<Rightarrow> 'a list list" where
  "chunks n [] = []"
| "chunks n (x # xs) =
     (if n = 0 then [] else take n (x # xs) # chunks n (drop n (x # xs)))"

definition sample_indices :: "'m world \<Rightarrow> nat \<Rightarrow> loader \<Rightarrow> nat list \<times> nat" where
  "sample_indices w draws dl =
     (if shuffle dl then (randperm w draws (length (dataset dl)), Suc draws)
      else ([0..<length (dataset dl)], draws))"

definition batches :: "loader \<Rightarrow> nat list \<Rightarrow> (nat list \<times> row list) list" where
  "batches dl idx =
     map (\<lambda>js. (js, map (\<lambda>i. dataset dl ! i) js)) (chunks (dl_batch_size dl) idx)"

subsection \<open>The accuracy metric\<close>

text \<open>
  \<^verbatim>\<open>evaluate.load("accuracy")\<close>: \<^verbatim>\<open>add_batch\<close> appends predictions and
  references of equal number; \<^verbatim>\<open>compute\<close> returns the share of positions where they
  agree and empties the accumulator, and raises when nothing was added since the last
  \<^verbatim>\<open>compute\<close>. The share is an exact fraction here; the script holds its nearest
  floating-point number.
\<close>

record metric =
  m_predictions :: "int list"
  m_references :: "int list"

definition load_metric :: metric where
  "load_metric = \<lparr>m_predictions = [], m_references = []\<rparr>"

definition add_batch :: "int list \<Rightarrow> int list \<Rightarrow> metric \<Rightarrow> error + metric" where
  "add_batch ps rs m =
     (if length ps \<noteq> length rs
      then Inl (ValueError ''Mismatch in the number of predictions and references'')
      else Inr \<lparr>m_predictions = m_predictions m @ ps, m_references = m_references m @ rs\<rparr>)"

definition accuracy :: "int list \<Rightarrow> int list \<Rightarrow> rat" where
  "accuracy ps rs =
     of_nat (length (filter (\<lambda>(p, r). p = r) (zip ps rs))) / of_nat (length rs)"

definition compute :: "metric \<Rightarrow> error + ((string \<rightharpoonup> rat) \<times> metric)" where
  "compute m =
     (if m_references m = []
      then Inl (ValueError ''call add or add_batch at least once before calling compute'')
      else Inr ([''accuracy'' \<mapsto> accuracy (m_predictions m) (m_references m)], load_metric))"

subsection \<open>Model calls\<close>

text \<open>\<^verbatim>\<open>argmax(dim=-1)\<close>: the first position of the largest score.\<close>

definition argmax :: "nat \<Rightarrow> (nat \<Rightarrow> real) \<Rightarrow> nat" where
  "argmax n f = fold (\<lambda>c best. if f best < f c then c else best) [1..<n] 0"

fun batch_labels :: "row list \<Rightarrow> error + int list" where
  "batch_labels [] = Inr []"
| "batch_labels (r # rs) =
     (case r ''labels'' of
        Some (Num v) \<Rightarrow>
          (case batch_labels rs of Inl e \<Rightarrow> Inl e | Inr vs \<Rightarrow> Inr (v # vs))
      | _ \<Rightarrow> Inl (KeyError ''labels''))"

text \<open>
  One inference step of the test and eval loops: the forward pass, the arg-max of each
  record's scores, and \<^verbatim>\<open>batch["labels"]\<close>.
\<close>

definition infer_batch ::
  "'m world \<Rightarrow> nat \<Rightarrow> 'm \<Rightarrow> row list \<Rightarrow> error + (int list \<times> int list)" where
  "infer_batch w nl m batch =
     (case forward w m batch of
        None \<Rightarrow> Inl (RuntimeError ''forward'')
      | Some logits \<Rightarrow>
          let predictions = map (\<lambda>i. int (argmax nl (logits i))) [0..<length batch] in
          (case batch_labels batch of
             Inl e \<Rightarrow> Inl e
           | Inr references \<Rightarrow> Inr (predictions, references)))"

subsection \<open>The training and evaluation loop\<close>

fun train_phase ::
  "'m world \<Rightarrow> nat \<Rightarrow> (nat list \<times> row list) list \<Rightarrow> 'm \<Rightarrow> 'm io" where
  "train_phase w epoch [] m = ([], Inr m)"
| "train_phase w epoch ((idx, batch) # rest) m =
     (case train_step w m batch of
        None \<Rightarrow> ([TrainStep epoch idx], Inl (RuntimeError ''train''))
      | Some m' \<Rightarrow>
          (case train_phase w epoch rest m' of
             (evs, r) \<Rightarrow> (TrainStep epoch idx # evs, r)))"

fun test_phase ::
  "'m world \<Rightarrow> nat \<Rightarrow> 'm \<Rightarrow> nat \<Rightarrow> (nat list \<times> row list) list \<Rightarrow> metric \<Rightarrow> metric io" where
  "test_phase w nl m epoch [] acc = ([], Inr acc)"
| "test_phase w nl m epoch ((idx, batch) # rest) acc =
     (case infer_batch w nl m batch of
        Inl e \<Rightarrow> ([TestStep epoch idx], Inl e)
      | Inr (ps, rs) \<Rightarrow>
          (case add_batch ps rs acc of
             Inl e \<Rightarrow> ([TestStep epoch idx], Inl e)
           | Inr acc' \<Rightarrow>
               (case test_phase w nl m epoch rest acc' of
                  (evs, r) \<Rightarrow> (TestStep epoch idx # evs, r))))"

record 'm loop_state =
  model :: 'm
  metric :: metric
  draws :: nat
  metrics :: "nat \<rightharpoonup> (string \<rightharpoonup> rat)"

definition run_epoch ::
  "'m world \<Rightarrow> nat \<Rightarrow> loader \<Rightarrow> loader \<Rightarrow> nat \<Rightarrow> 'm loop_state \<Rightarrow> ('m loop_state) io" where
  "run_epoch w nl train_dataloader test_dataloader epoch s =
     (case sample_indices w (draws s) train_dataloader of (idx, d1) \<Rightarrow>
      then_io (train_phase w epoch (batches train_dataloader idx) (model s)) (\<lambda>m'.
      case sample_indices w d1 test_dataloader of (tidx, d2) \<Rightarrow>
      then_io (test_phase w nl m' epoch (batches test_dataloader tidx) (metric s)) (\<lambda>acc.
      case compute acc of
        Inl e \<Rightarrow> ([], Inl e)
      | Inr (test_metric, acc') \<Rightarrow>
          ([], Inr \<lparr>model = m', metric = acc', draws = d2,
                    metrics = (metrics s)(epoch \<mapsto> test_metric)\<rparr>))))"

fun epoch_loop ::
  "'m world \<Rightarrow> nat \<Rightarrow> loader \<Rightarrow> loader \<Rightarrow> nat list \<Rightarrow> 'm loop_state \<Rightarrow> ('m loop_state) io" where
  "epoch_loop w nl train_dataloader test_dataloader [] s = ([], Inr s)"
| "epoch_loop w nl train_dataloader test_dataloader (epoch # rest) s =
     (case run_epoch w nl train_dataloader test_dataloader epoch s of
        (evs, Inl e) \<Rightarrow> (evs, Inl e)
      | (evs, Inr s') \<Rightarrow>
          (case epoch_loop w nl train_dataloader test_dataloader rest s' of
             (evs', r) \<Rightarrow> (evs @ evs', r)))"

subsection \<open>Final evaluation\<close>

fun eval_phase ::
  "'m world \<Rightarrow> nat \<Rightarrow> 'm \<Rightarrow> (nat list \<times> row list) list \<Rightarrow>
   int list \<times> int list \<times> metric \<Rightarrow> (int list \<times> int list \<times> metric) io" where
  "eval_phase w nl m [] st = ([], Inr st)"
| "eval_phase w nl m ((idx, batch) # rest) (all_predictions, all_references, acc) =
     (case infer_batch w nl m batch of
        Inl e \<Rightarrow> ([EvalStep idx], Inl e)
      | Inr (ps, rs) \<Rightarrow>
          (case add_batch ps rs acc of
             Inl e \<Rightarrow> ([EvalStep idx], Inl e)
           | Inr acc' \<Rightarrow>
               (case eval_phase w nl m rest
                       (all_predictions @ ps, all_references @ rs, acc') of
                  (evs, r) \<Rightarrow> (EvalStep idx # evs, r))))"

subsection \<open>The confusion matrix\<close>

text \<open>
  \<^verbatim>\<open>confusion_matrix(y_true, y_pred)\<close> with no \<^verbatim>\<open>labels\<close> argument: the labels are
  the values that appear at least once in \<^verbatim>\<open>y_true\<close> or \<^verbatim>\<open>y_pred\<close>, in sorted
  order; cell \<open>(i, j)\<close> counts the samples whose true value is the \<open>i\<close>-th label and
  whose predicted value is the \<open>j\<close>-th label. Lists of different lengths are refused
  with \<^verbatim>\<open>ValueError\<close>.
\<close>

definition unique_labels :: "int list \<Rightarrow> int list \<Rightarrow> int list" where
  "unique_labels y_true y_pred = sort (remdups (y_true @ y_pred))"

definition confusion_matrix :: "int list \<Rightarrow> int list \<Rightarrow> error + nat list list" where
  "confusion_matrix y_true y_pred =
     (if length y_true \<noteq> length y_pred
      then Inl (ValueError ''Found input variables with inconsistent numbers of samples'')
      else
        let labels = unique_labels y_true y_pred in
        Inr (map (\<lambda>t. map (\<lambda>p. count_list (zip y_true y_pred) (t, p)) labels) labels))"

subsection \<open>Run reporting\<close>

text \<open>Decimal numerals, as an f-string prints an integer.\<close>

fun show_nat :: "nat \<Rightarrow> string" where
  "show_nat n =
     (if n < 10 then [''0123456789'' ! n]
      else show_nat (n div 10) @ [''0123456789'' ! (n mod 10)])"

declare show_nat.simps [simp del]

definition pad2 :: "nat \<Rightarrow> string" where
  "pad2 n = (if n < 10 then ''0'' @ show_nat n else show_nat n)"

text \<open>
  \<^verbatim>\<open>strftime('%d-%m-%Y-%H-%M')\<close>: day, month, hour and minute as two digits, the year
  in full (four digits for the years a clock gives).
\<close>

definition strftime :: "datetime \<Rightarrow> string" where
  "strftime t =
     pad2 (day t) @ ''-'' @ pad2 (month t) @ ''-'' @ show_nat (year t) @ ''-''
       @ pad2 (hour t) @ ''-'' @ pad2 (minute t)"

definition csv_file :: "string \<Rightarrow> nat \<Rightarrow> string" where
  "csv_file conjunto epochs =
     ''results/confusion_matrix_'' @ conjunto @ ''_'' @ show_nat epochs @ ''_epochs.csv''"

definition png_file :: "string \<Rightarrow> nat \<Rightarrow> string" where
  "png_file conjunto epochs =
     ''results/confusion_matrix_'' @ conjunto @ ''_'' @ show_nat epochs @ ''_epochs.png''"

definition json_file :: "string \<Rightarrow> string \<Rightarrow> nat \<Rightarrow> string" where
  "json_file today conjunto epochs =
     ''results/'' @ today @ ''-conjunto'' @ conjunto @ ''-'' @ show_nat epochs
       @ ''-epochs.json''"

definition write_file :: "'m world \<Rightarrow> string \<Rightarrow> event \<Rightarrow> unit io" where
  "write_file w path ev =
     (if can_write w path then ([ev], Inr ()) else ([], Inl (OSError path)))"

subsection \<open>The script\<close>

record run_output =
  o_results :: summary
  o_cm :: "nat list list"
  o_all_predictions :: "int list"
  o_all_references :: "int list"

text \<open>Lines 58 to 124: tokenizer, the three partitions, the metric, the dataloaders.\<close>

definition prepare ::
  "settings \<Rightarrow> 'm world \<Rightarrow> string \<Rightarrow> (loader \<times> loader \<times> loader) io" where
  "prepare cfg w conjunto =
     then_io ([FromPretrained (model_name_or_path cfg)], Inr ()) (\<lambda>_.
     then_io (load_dataset w (train_file conjunto)) (\<lambda>datasets.
     then_io (load_dataset w (test_file conjunto)) (\<lambda>datasets_test.
     then_io (load_dataset w (eval_file conjunto)) (\<lambda>datasets_eval.
     then_io ([LoadMetric ''accuracy''], Inr ()) (\<lambda>_.
     then_io (lift (dataset_map (tokenize w) [''texto'', ''nota''] datasets))
       (\<lambda>tokenize_datasets.
     then_io (lift (dataset_map (tokenize w) [''texto'', ''nota''] datasets_test))
       (\<lambda>tokenize_datasets_test.
     then_io (lift (dataset_map (tokenize w) [''texto'', ''nota''] datasets_eval))
       (\<lambda>tokenize_datasets_eval.
     then_io (lift (DataLoader tokenize_datasets True (batch_size cfg)))
       (\<lambda>train_dataloader.
     then_io (lift (DataLoader tokenize_datasets_test False (batch_size cfg)))
       (\<lambda>test_dataloader.
     then_io (lift (DataLoader tokenize_datasets_eval False (batch_size cfg)))
       (\<lambda>eval_dataloader.
     ([], Inr (train_dataloader, test_dataloader, eval_dataloader)))))))))))))"

text \<open>
  Lines 126 to 154: the model, and the sizes the summary starts with (the number of
  \<^verbatim>\<open>input_ids\<close> entries of each partition).
\<close>

definition assemble ::
  "settings \<Rightarrow> 'm world \<Rightarrow> loader \<times> loader \<times> loader \<Rightarrow> ('m \<times> nat \<times> nat \<times> nat) io" where
  "assemble cfg w dls =
     (case dls of (train_dataloader, test_dataloader, eval_dataloader) \<Rightarrow>
      then_io ([FromPretrained (model_name_or_path cfg)],
               Inr (pretrained w (model_name_or_path cfg) (n_labels cfg))) (\<lambda>m.
      then_io (lift (column (dataset train_dataloader) ''input_ids'')) (\<lambda>c1.
      then_io (lift (column (dataset test_dataloader) ''input_ids'')) (\<lambda>c2.
      then_io (lift (column (dataset eval_dataloader) ''input_ids'')) (\<lambda>c3.
      ([], Inr (m, length c1, length c2, length c3)))))))"

text \<open>Lines 184 to 207: the pass over the eval partition and the confusion matrix.\<close>

definition final_eval ::
  "'m world \<Rightarrow> nat \<Rightarrow> loader \<Rightarrow> 'm loop_state \<Rightarrow>
   (int list \<times> int list \<times> (string \<rightharpoonup> rat) \<times> nat list list) io" where
  "final_eval w nl eval_dataloader s =
     (case sample_indices w (draws s) eval_dataloader of (idx, d) \<Rightarrow>
      then_io (eval_phase w nl (model s) (batches eval_dataloader idx) ([], [], metric s))
        (\<lambda>(all_predictions, all_references, acc).
      then_io (lift (compute acc)) (\<lambda>(eval_metric, acc').
      then_io (lift (confusion_matrix all_references all_predictions)) (\<lambda>cm.
      ([], Inr (all_predictions, all_references, eval_metric, cm))))))"

text \<open>Lines 209 to 237: the matrix as a table and as an image, and the summary.\<close>

definition report ::
  "settings \<Rightarrow> 'm world \<Rightarrow> string \<Rightarrow> string \<Rightarrow> nat \<times> nat \<times> nat \<Rightarrow>
   (nat \<rightharpoonup> (string \<rightharpoonup> rat)) \<Rightarrow>
   int list \<times> int list \<times> (string \<rightharpoonup> rat) \<times> nat list list \<Rightarrow> run_output io" where
  "report cfg w conjunto obs sizes ms ev =
     (case sizes of (train_size, test_size, eval_size) \<Rightarrow>
      case ev of (all_predictions, all_references, eval_metric, cm) \<Rightarrow>
      then_io (write_file w (csv_file conjunto (num_epochs cfg))
                 (ToCsv (csv_file conjunto (num_epochs cfg)) cm)) (\<lambda>_.
      then_io (write_file w (png_file conjunto (num_epochs cfg))
                 (SaveFig (png_file conjunto (num_epochs cfg)))) (\<lambda>_.
      let today = strftime (now w);
          results = \<lparr>r_batch_size = batch_size cfg, r_model = model_name_or_path cfg,
            r_epochs = num_epochs cfg, r_metrics = ms, r_conjunto = conjunto,
            r_obs = obs, r_padding_side = padding_side cfg, r_train_size = train_size,
            r_test_size = test_size, r_eval_size = eval_size, r_n_labels = n_labels cfg,
            r_validation_metric = eval_metric, r_date = today,
            r_processing_time = (end_time w - start_time w) / 60\<rparr>;
          path = json_file today conjunto (num_epochs cfg)
      in
      then_io (write_file w path (JsonDump path results 4)) (\<lambda>_.
      ([Print ''finish!!''],
       Inr \<lparr>o_results = results, o_cm = cm, o_all_predictions = all_predictions,
            o_all_references = all_references\<rparr>)))))"

definition run :: "settings \<Rightarrow> 'm world \<Rightarrow> run_output io" where
  "run cfg w =
     then_io (read_args (argv w)) (\<lambda>(conjunto, obs).
     then_io (prepare cfg w conjunto) (\<lambda>(train_dataloader, test_dataloader, eval_dataloader).
     then_io (assemble cfg w (train_dataloader, test_dataloader, eval_dataloader))
       (\<lambda>(m, sizes).
     then_io (epoch_loop w (n_labels cfg) train_dataloader test_dataloader
                [0..<num_epochs cfg]
                \<lparr>model = m, metric = load_metric, draws = 0, metrics = Map.empty\<rparr>) (\<lambda>s.
     then_io (final_eval w (n_labels cfg) eval_dataloader s) (\<lambda>ev.
     report cfg w conjunto obs sizes (metrics s) ev)))))"

text \<open>
  What the script relies on when it passes \<^verbatim>\<open>truncation=True, max_length=512\<close>: a
  tokenizer asked to truncate returns \<^verbatim>\<open>input_ids\<close> of at most \<^verbatim>\<open>max_length\<close>
  entries.
\<close>

definition honours_max_length :: "(string \<Rightarrow> bool \<Rightarrow> nat \<Rightarrow> row) \<Rightarrow> bool" where
  "honours_max_length tok =
     (\<forall>text max_length. \<exists>ids.
        tok text True max_length ''input_ids'' = Some (Seq ids) \<and> length ids \<le> max_length)"

text \<open>
  The positions of the records the model was called on, in the order of the calls: in
  the train phase and in the test phase of one epoch, and in the final pass over the
  eval partition.
\<close>

definition train_positions :: "nat \<Rightarrow> event list \<Rightarrow> nat list" where
  "train_positions epoch evs =
     concat (map (\<lambda>ev. case ev of TrainStep e idx \<Rightarrow> if e = epoch then idx else []
                           | _ \<Rightarrow> []) evs)"

definition test_positions :: "nat \<Rightarrow> event list \<Rightarrow> nat list" where
  "test_positions epoch evs =
     concat (map (\<lambda>ev. case ev of TestStep e idx \<Rightarrow> if e = epoch then idx else []
                           | _ \<Rightarrow> []) evs)"

definition eval_positions :: "event list \<Rightarrow> nat list" where
  "eval_positions evs =
     concat (map (\<lambda>ev. case ev of EvalStep idx \<Rightarrow> idx | _ \<Rightarrow> []) evs)"

text \<open>
  The partitions as the dataloaders hold them (tokenized, in the order of the file), for
  the dataset identifier of the command line; empty when the run does not get that far.
\<close>

definition partitions :: "settings \<Rightarrow> 'm world \<Rightarrow> row list \<times> row list \<times> row list" where
  "partitions cfg w =
     (case snd (prepare cfg w (argv w ! 1)) of
        Inr (train_dataloader, test_dataloader, eval_dataloader) \<Rightarrow>
          (dataset train_dataloader, dataset test_dataloader, dataset eval_dataloader)
      | Inl e \<Rightarrow> ([], [], []))"

definition train_partition :: "settings \<Rightarrow> 'm world \<Rightarrow> row list" where
  "train_partition cfg w = fst (partitions cfg w)"

definition test_partition :: "settings \<Rightarrow> 'm world \<Rightarrow> row list" where
  "test_partition cfg w = fst (snd (partitions cfg w))"

definition eval_partition :: "settings \<Rightarrow> 'm world \<Rightarrow> row list" where
  "eval_partition cfg w = snd (snd (partitions cfg w))"

subsection \<open>A concrete run\<close>

text \<open>
  Dataset identifier \<open>7\<close> with small partitions, a tokenizer that gives one token per
  character, and a model that predicts the number of tokens of a record. The train and
  test partitions carry the labels 1 and 0; the eval partition carries the labels 0, 2
  and 0.
\<close>

definition record_of :: "string \<Rightarrow> int \<Rightarrow> row" where
  "record_of texto label =
     [''texto'' \<mapsto> Str texto, ''nota'' \<mapsto> Num label, ''labels'' \<mapsto> Num label]"

definition toy_tokenizer :: "string \<Rightarrow> bool \<Rightarrow> nat \<Rightarrow> row" where
  "toy_tokenizer text truncation max_length =
     (let ids = map (\<lambda>c. int (of_char c)) (if truncation then take max_length text else text)
      in [''input_ids'' \<mapsto> Seq ids, ''attention_mask'' \<mapsto> Seq (map (\<lambda>_. 1) ids)])"

definition toy_forward :: "nat \<Rightarrow> row list \<Rightarrow> (nat \<Rightarrow> nat \<Rightarrow> real) option" where
  "toy_forward m batch =
     Some (\<lambda>i c. case (batch ! i) ''input_ids'' of
                    Some (Seq ids) \<Rightarrow> if c = length ids then 1 else 0
                  | _ \<Rightarrow> 0)"

definition world7 :: "nat world" where
  "world7 =
     \<lparr>argv = [''lora-peft-confusion-matrix.py'', ''7''],
      parquet =
        [train_file ''7'' \<mapsto> [record_of ''a'' 1, record_of '''' 0],
         test_file ''7'' \<mapsto> [record_of ''a'' 1, record_of ''ab'' 0],
         eval_file ''7'' \<mapsto> [record_of '''' 0, record_of ''ab'' 2, record_of ''ab'' 0]],
      can_write = (\<lambda>_. True),
      tokenizer = toy_tokenizer,
      pretrained = (\<lambda>_ _. 0),
      train_step = (\<lambda>m batch. Some (Suc m)),
      forward = toy_forward,
      randperm = (\<lambda>k n. if even k then rev [0..<n] else [0..<n]),
      start_time = 0,
      end_time = 120,
      now = \<lparr>year = 2026, month = 11, day = 3, hour = 14, minute = 5, second = 30\<rparr>\<rparr>"

text \<open>The script's settings with two epochs and three label classes.\<close>

definition settings7 :: settings where
  "settings7 = script_settings\<lparr>num_epochs := 2, n_labels := 3\<rparr>"

text \<open>The same invocation without the dataset identifier, and with no eval file.\<close>

definition world_no_args :: "nat world" where
  "world_no_args = world7\<lparr>argv := [''lora-peft-confusion-matrix.py'']\<rparr>"

definition world_no_eval_file :: "nat world" where
  "world_no_eval_file = world7\<lparr>parquet := (parquet world7)(eval_file ''7'' := None)\<rparr>"

text \<open>The same invocation when nothing under \<^verbatim>\<open>results/\<close> can be written.\<close>

definition world_no_results_dir :: "nat world" where
  "world_no_results_dir = world7\<lparr>can_write := (\<lambda>path. False)\<rparr>"

definition toy_loader :: "bool \<Rightarrow> loader" where
  "toy_loader sh =
     \<lparr>dataset = [(record_of ''a'' 1 |` (- {''texto'', ''nota''})) ++ toy_tokenizer ''a'' True 512,
                 (record_of ''ab'' 0 |` (- {''texto'', ''nota''})) ++ toy_tokenizer ''ab'' True 512],
      shuffle = sh, dl_batch_size = 5\<rparr>"

subsection \<open>Facts about the confusion matrix\<close>

lemma unique_labels_set: "set (unique_labels y_true y_pred) = set y_true \<union> set y_pred"
  by (simp add: unique_labels_def)

lemma unique_labels_distinct: "distinct (unique_labels y_true y_pred)"
  by (simp add: unique_labels_def)

lemma unique_labels_sorted: "sorted (unique_labels y_true y_pred)"
  by (simp add: unique_labels_def)

lemma unique_labels_length:
  "length (unique_labels y_true y_pred) = card (set y_true \<union> set y_pred)"
  using distinct_card [OF unique_labels_distinct, of y_true y_pred]
  by (simp add: unique_labels_set)

lemma unique_labels_eq_sorted_list:
  "unique_labels y_true y_pred = sorted_list_of_set (set y_true \<union> set y_pred)"
  by (metis List.finite_set finite_UnI sorted_list_of_set.idem_if_sorted_distinct
      unique_labels_distinct unique_labels_set unique_labels_sorted)

lemma unique_labels_perm:
  assumes "mset (zip t' p') = mset (zip t p)"
    and "length t = length p" and "length t' = length p'"
  shows "unique_labels t' p' = unique_labels t p"
proof -
  have "set (zip t' p') = set (zip t p)"
    using assms(1) by (metis set_mset_mset)
  then have "fst ` set (zip t' p') = fst ` set (zip t p)"
    and "snd ` set (zip t' p') = snd ` set (zip t p)"
    by simp_all
  then have "set t' = set t" and "set p' = set p"
    using assms(2,3) by (simp_all flip: set_map)
  then show ?thesis
    by (simp add: unique_labels_eq_sorted_list)
qed

lemma count_list_perm:
  "mset xs = mset ys \<Longrightarrow> count_list xs z = count_list ys z"
  by (metis count_mset)

lemma confusion_matrix_Inr:
  "confusion_matrix T P = Inr m \<longleftrightarrow>
     length T = length P \<and>
     m = map (\<lambda>t. map (\<lambda>p. count_list (zip T P) (t, p)) (unique_labels T P)) (unique_labels T P)"
  by (auto simp: confusion_matrix_def Let_def)

lemma count_zip_filter:
  "count_list (zip T P) (t, p) = length (filter (\<lambda>(a, b). a = t \<and> b = p) (zip T P))"
  by (induction "zip T P" arbitrary: T P) (auto simp: count_list_eq_length_filter intro!: arg_cong[where f=length] filter_cong)

lemma sum_list_delta:
  "distinct L \<Longrightarrow> sum_list (map (\<lambda>p. if b = p then (1::nat) else 0) L) = (if b \<in> set L then 1 else 0)"
  by (induction L) auto

lemma row_sum_count:
  assumes "length T = length P" and "distinct L" and "set P \<subseteq> set L"
  shows "sum_list (map (\<lambda>p. count_list (zip T P) (t, p)) L) = count_list T t"
  using assms
proof (induction T P rule: list_induct2)
  case Nil
  then show ?case by simp
next
  case (Cons a T b P)
  have "sum_list (map (\<lambda>p. count_list (zip (a # T) (b # P)) (t, p)) L)
      = sum_list (map (\<lambda>p. count_list (zip T P) (t, p) + (if a = t then (if b = p then 1 else 0) else 0)) L)"
    by (intro arg_cong[where f=sum_list] map_cong) auto
  also have "\<dots> = sum_list (map (\<lambda>p. count_list (zip T P) (t, p)) L)
      + sum_list (map (\<lambda>p. if a = t then (if b = p then 1 else 0) else 0) L)"
    by (simp add: sum_list_addf)
  also have "sum_list (map (\<lambda>p. if a = t then (if b = p then 1 else 0) else 0) L) = (if a = t then 1 else (0::nat))"
    using Cons.prems sum_list_delta[of L b] by (cases "a = t") auto
  finally show ?case using Cons by simp
qed

lemma total_count:
  assumes "distinct L" and "set T \<subseteq> set L"
  shows "sum_list (map (count_list T) L) = length T"
  using sum_count_set[of T "set L"] assms
  by (simp add: sum_list_distinct_conv_sum_set)

lemma diag_count:
  assumes "length T = length P" and "distinct L" and "set T \<subseteq> set L"
  shows "sum_list (map (\<lambda>t. count_list (zip T P) (t, t)) L)
       = length (filter (\<lambda>(p, r). p = r) (zip P T))"
  using assms
proof (induction T P rule: list_induct2)
  case Nil
  then show ?case by simp
next
  case (Cons a T b P)
  have "sum_list (map (\<lambda>t. count_list (zip (a # T) (b # P)) (t, t)) L)
      = sum_list (map (\<lambda>t. count_list (zip T P) (t, t) + (if a = b then (if a = t then 1 else 0) else 0)) L)"
    by (intro arg_cong[where f=sum_list] map_cong) auto
  also have "\<dots> = sum_list (map (\<lambda>t. count_list (zip T P) (t, t)) L)
      + sum_list (map (\<lambda>t. if a = b then (if a = t then 1 else 0) else 0) L)"
    by (simp add: sum_list_addf)
  also have "sum_list (map (\<lambda>t. if a = b then (if a = t then 1 else 0) else 0) L) = (if a = b then 1 else (0::nat))"
    using Cons.prems sum_list_delta[of L a] by (cases "a = b") auto
  finally show ?case using Cons by auto
qed

lemma confusion_matrix_mset:
  assumes "mset (zip t' p') = mset (zip t p)"
    and "length t = length p" and "length t' = length p'"
  shows "confusion_matrix t' p' = confusion_matrix t p"
proof -
  have "count_list (zip t' p') z = count_list (zip t p) z" for z
    using assms(1) by (rule count_list_perm)
  then show ?thesis
    using unique_labels_perm[OF assms] assms(2,3)
    by (simp add: confusion_matrix_def)
qed

lemma zip_positions:
  assumes "length t = length p"
  shows "map (\<lambda>i. (t ! i, p ! i)) [0..<length t] = zip t p"
  using assms by (intro nth_equalityI) simp_all

lemma confusion_matrix_dims:
  assumes "confusion_matrix T P = Inr m"
  shows "length m = card (set T \<union> set P)"
    and "\<forall>row\<in>set m. length row = card (set T \<union> set P)"
  using assms by (auto simp: confusion_matrix_Inr unique_labels_length)

lemma confusion_matrix_entry:
  assumes "confusion_matrix T P = Inr m"
    and "i < length (unique_labels T P)" and "j < length (unique_labels T P)"
  shows "m ! i ! j =
    length (filter (\<lambda>(t, p). t = unique_labels T P ! i \<and> p = unique_labels T P ! j) (zip T P))"
  using assms by (simp add: confusion_matrix_Inr count_zip_filter)

lemma confusion_matrix_row_sum:
  assumes "confusion_matrix T P = Inr m" and "i < length (unique_labels T P)"
  shows "sum_list (m ! i) = length (filter (\<lambda>t. t = unique_labels T P ! i) T)"
proof -
  from assms(1) have len: "length T = length P"
    and m: "m = map (\<lambda>t. map (\<lambda>p. count_list (zip T P) (t, p)) (unique_labels T P))
                 (unique_labels T P)"
    by (simp_all add: confusion_matrix_Inr)
  have "sum_list (m ! i)
      = sum_list (map (\<lambda>p. count_list (zip T P) (unique_labels T P ! i, p)) (unique_labels T P))"
    using m assms(2) by simp
  also have "\<dots> = count_list T (unique_labels T P ! i)"
    by (rule row_sum_count[OF len unique_labels_distinct]) (simp add: unique_labels_set)
  also have "\<dots> = length (filter (\<lambda>t. t = unique_labels T P ! i) T)"
    unfolding count_list_eq_length_filter
    by (rule arg_cong[where f = length], rule filter_cong) auto
  finally show ?thesis .
qed

lemma confusion_matrix_total:
  assumes "confusion_matrix T P = Inr m"
  shows "sum_list (map sum_list m) = length T"
proof -
  from assms have len: "length T = length P"
    and m: "m = map (\<lambda>t. map (\<lambda>p. count_list (zip T P) (t, p)) (unique_labels T P))
                 (unique_labels T P)"
    by (simp_all add: confusion_matrix_Inr)
  have "map sum_list m = map (count_list T) (unique_labels T P)"
    unfolding m
    by (simp add: comp_def row_sum_count[OF len unique_labels_distinct] unique_labels_set)
  then show ?thesis
    by (simp add: total_count[OF unique_labels_distinct] unique_labels_set)
qed

lemma confusion_matrix_diagonal:
  assumes "confusion_matrix T P = Inr m"
  shows "sum_list (map (\<lambda>i. m ! i ! i) [0..<length m])
       = length (filter (\<lambda>(p, r). p = r) (zip P T))"
proof -
  let ?L = "unique_labels T P"
  from assms have len: "length T = length P"
    and m: "m = map (\<lambda>t. map (\<lambda>p. count_list (zip T P) (t, p)) ?L) ?L"
    by (simp_all add: confusion_matrix_Inr)
  have "map (\<lambda>i. m ! i ! i) [0..<length m] = map (\<lambda>i. count_list (zip T P) (?L ! i, ?L ! i)) [0..<length ?L]"
    unfolding m by simp
  also have "\<dots> = map (\<lambda>t. count_list (zip T P) (t, t)) (map (\<lambda>i. ?L ! i) [0..<length ?L])"
    by (simp add: comp_def)
  also have "\<dots> = map (\<lambda>t. count_list (zip T P) (t, t)) ?L"
    by (simp only: map_nth)
  finally show ?thesis
    by (simp add: diag_count[OF len unique_labels_distinct] unique_labels_set)
qed

subsection \<open>Facts about sequencing\<close>

lemma then_io_Inr:
  "then_io m f = (evs, Inr b) \<longleftrightarrow>
     (\<exists>e1 a e2. m = (e1, Inr a) \<and> f a = (e2, Inr b) \<and> evs = e1 @ e2)"
  by (cases m; cases "snd m") (auto simp: then_io_def split: prod.splits)

lemma then_io_Inl:
  "then_io m f = (evs, Inl e) \<longleftrightarrow>
     m = (evs, Inl e) \<or> (\<exists>e1 a e2. m = (e1, Inr a) \<and> f a = (e2, Inl e) \<and> evs = e1 @ e2)"
  by (cases m; cases "snd m") (auto simp: then_io_def split: prod.splits)

lemma then_io_events:
  assumes "\<forall>ev\<in>set (fst m). Q ev"
    and "\<And>a. snd m = Inr a \<Longrightarrow> \<forall>ev\<in>set (fst (f a)). Q ev"
  shows "\<forall>ev\<in>set (fst (then_io m f)). Q ev"
  using assms by (cases m; cases "snd m") (auto simp: then_io_def split: prod.splits)

lemma lift_Inr: "lift r = (evs, Inr a) \<longleftrightarrow> evs = [] \<and> r = Inr a"
  by (auto simp: lift_def)

lemma fst_lift: "fst (lift r) = []"
  by (simp add: lift_def)

lemma fst_then_io_lift:
  "fst (then_io (lift r) f) = (case r of Inl e \<Rightarrow> [] | Inr a \<Rightarrow> fst (f a))"
  by (cases r) (simp_all add: then_io_def lift_def split: prod.splits)

subsection \<open>Facts about the accuracy metric\<close>

lemma accuracy_bounds: "0 \<le> accuracy ps rs \<and> accuracy ps rs \<le> 1"
proof -
  have "length (filter (\<lambda>(p, r). p = r) (zip ps rs)) \<le> length (zip ps rs)"
    by (rule length_filter_le)
  also have "\<dots> \<le> length rs" by simp
  finally have le: "length (filter (\<lambda>(p, r). p = r) (zip ps rs)) \<le> length rs" .
  show ?thesis
  proof (cases "rs = []")
    case True
    then show ?thesis by (simp add: accuracy_def)
  next
    case False
    then have "(0::rat) < of_nat (length rs)" by simp
    with le show ?thesis
      by (simp add: accuracy_def divide_le_eq_1)
  qed
qed

lemma compute_Inr:
  "compute acc = Inr (r, acc') \<longleftrightarrow>
     m_references acc \<noteq> [] \<and> acc' = load_metric \<and>
     r = [''accuracy'' \<mapsto> accuracy (m_predictions acc) (m_references acc)]"
  by (auto simp: compute_def)

lemma add_batch_Inr:
  "add_batch ps rs acc = Inr acc' \<longleftrightarrow>
     length ps = length rs \<and>
     acc' = \<lparr>m_predictions = m_predictions acc @ ps, m_references = m_references acc @ rs\<rparr>"
  by (auto simp: add_batch_def)

subsection \<open>Facts about the model calls\<close>

lemma fold_argmax_less:
  "b < n \<Longrightarrow> set cs \<subseteq> {..<n} \<Longrightarrow>
   fold (\<lambda>c best. if f best < f c then c else best) cs b < (n::nat)"
  by (induction cs arbitrary: b) auto

lemma argmax_less: "0 < n \<Longrightarrow> argmax n f < n"
  unfolding argmax_def by (rule fold_argmax_less) auto

lemma batch_labels_length: "batch_labels rows = Inr vs \<Longrightarrow> length vs = length rows"
  by (induction rows arbitrary: vs) (auto split: option.splits cell.splits sum.splits)

lemma batch_labels_append:
  "batch_labels xs = Inr a \<Longrightarrow> batch_labels ys = Inr b \<Longrightarrow> batch_labels (xs @ ys) = Inr (a @ b)"
  by (induction xs arbitrary: a) (auto split: option.splits cell.splits sum.splits)

lemma batch_labels_has_column:
  "batch_labels rows = Inr vs \<Longrightarrow> r \<in> set rows \<Longrightarrow> \<exists>v. r ''labels'' = Some (Num v)"
  by (induction rows arbitrary: vs) (auto split: option.splits cell.splits sum.splits)

lemma infer_batch_Inr:
  assumes "infer_batch w nl m batch = Inr (ps, rs)"
  shows "batch_labels batch = Inr rs" and "length ps = length batch"
    and "length rs = length batch" and "0 < nl \<Longrightarrow> \<forall>p\<in>set ps. 0 \<le> p \<and> p < int nl"
  using assms argmax_less[of nl]
  by (auto simp: infer_batch_def Let_def batch_labels_length split: option.splits sum.splits)

subsection \<open>Facts about batches\<close>

lemma concat_chunks: "0 < n \<Longrightarrow> concat (chunks n xs) = xs"
  by (induction n xs rule: chunks.induct) auto

lemma chunks_nonempty: "c \<in> set (chunks n xs) \<Longrightarrow> c \<noteq> []"
  by (induction n xs rule: chunks.induct) (auto split: if_splits)

lemma chunks_length: "c \<in> set (chunks n xs) \<Longrightarrow> length c \<le> n"
  by (induction n xs rule: chunks.induct) (auto split: if_splits)

lemma chunks_Nil_iff: "chunks n xs = [] \<longleftrightarrow> n = 0 \<or> xs = []"
  by (cases xs) auto

lemma batches_positions:
  "0 < dl_batch_size dl \<Longrightarrow> concat (map fst (batches dl idx)) = idx"
  by (simp add: batches_def comp_def concat_chunks)

lemma batches_records:
  "0 < dl_batch_size dl \<Longrightarrow>
   concat (map snd (batches dl idx)) = map (\<lambda>i. dataset dl ! i) idx"
proof -
  assume pos: "0 < dl_batch_size dl"
  have "concat (map snd (batches dl idx))
      = concat (map (map (\<lambda>i. dataset dl ! i)) (chunks (dl_batch_size dl) idx))"
    by (simp add: batches_def comp_def)
  also have "\<dots> = map (\<lambda>i. dataset dl ! i) (concat (chunks (dl_batch_size dl) idx))"
    by (simp add: map_concat)
  finally show ?thesis using pos by (simp add: concat_chunks)
qed

lemma batches_in_order:
  "0 < dl_batch_size dl \<Longrightarrow>
   concat (map snd (batches dl [0..<length (dataset dl)])) = dataset dl"
  by (simp add: batches_records map_nth)

subsection \<open>Facts about the phases\<close>

lemma train_phase_events:
  "\<forall>ev\<in>set (fst (train_phase w ep bs m)). \<exists>idx. ev = TrainStep ep idx"
  by (induction w ep bs m rule: train_phase.induct) (auto split: option.splits prod.splits)

lemma train_phase_Inr:
  "train_phase w ep bs m = (evs, Inr m') \<Longrightarrow> evs = map (\<lambda>b. TrainStep ep (fst b)) bs"
  by (induction w ep bs m arbitrary: evs rule: train_phase.induct)
     (auto split: option.splits prod.splits)

lemma test_phase_events:
  "\<forall>ev\<in>set (fst (test_phase w nl m ep bs acc)). \<exists>idx. ev = TestStep ep idx"
  by (induction w nl m ep bs acc rule: test_phase.induct)
     (auto split: sum.splits prod.splits)

lemma test_phase_Inr:
  "test_phase w nl m ep bs acc = (evs, Inr acc') \<Longrightarrow>
   evs = map (\<lambda>b. TestStep ep (fst b)) bs \<and>
   (\<exists>ps rs. acc' = \<lparr>m_predictions = m_predictions acc @ ps,
                     m_references = m_references acc @ rs\<rparr> \<and>
            length ps = length rs \<and> batch_labels (concat (map snd bs)) = Inr rs)"
proof (induction w nl m ep bs acc arbitrary: evs rule: test_phase.induct)
  case (1 w nl m epoch acc)
  then show ?case by simp
next
  case (2 w nl m epoch idx batch rest acc)
  from "2.prems" obtain ps rs acc1 evs1 where
    ib: "infer_batch w nl m batch = Inr (ps, rs)" and
    ab: "add_batch ps rs acc = Inr acc1" and
    rest: "test_phase w nl m epoch rest acc1 = (evs1, Inr acc')" and
    evs: "evs = TestStep epoch idx # evs1"
    by (auto split: sum.splits prod.splits)
  from "2.IH"[OF ib refl ab rest] obtain ps' rs' where
    e1: "evs1 = map (\<lambda>b. TestStep epoch (fst b)) rest" and
    a': "acc' = \<lparr>m_predictions = m_predictions acc1 @ ps',
                  m_references = m_references acc1 @ rs'\<rparr>" and
    len: "length ps' = length rs'" and
    bl: "batch_labels (concat (map snd rest)) = Inr rs'"
    by blast
  from ab have a1: "acc1 = \<lparr>m_predictions = m_predictions acc @ ps,
                             m_references = m_references acc @ rs\<rparr>"
    and l1: "length ps = length rs"
    by (simp_all add: add_batch_Inr)
  have "batch_labels (batch @ concat (map snd rest)) = Inr (rs @ rs')"
    using infer_batch_Inr(1)[OF ib] bl by (rule batch_labels_append)
  with a1 a' len l1 e1 evs show ?case
    by (intro conjI exI[of _ "ps @ ps'"] exI[of _ "rs @ rs'"]) simp_all
qed

lemma eval_phase_events:
  "\<forall>ev\<in>set (fst (eval_phase w nl m bs st)). \<exists>idx. ev = EvalStep idx"
  by (induction w nl m bs st rule: eval_phase.induct)
     (auto split: sum.splits prod.splits)

lemma eval_phase_Inr:
  "eval_phase w nl m bs (P, T, acc) = (evs, Inr (P', T', acc')) \<Longrightarrow>
   evs = map (\<lambda>b. EvalStep (fst b)) bs \<and>
   (\<exists>ps rs. P' = P @ ps \<and> T' = T @ rs \<and>
            acc' = \<lparr>m_predictions = m_predictions acc @ ps,
                     m_references = m_references acc @ rs\<rparr> \<and>
            length ps = length rs \<and> batch_labels (concat (map snd bs)) = Inr rs \<and>
            (0 < nl \<longrightarrow> (\<forall>p\<in>set ps. 0 \<le> p \<and> p < int nl)))"
proof (induction bs arbitrary: P T acc evs)
  case Nil
  then show ?case by simp
next
  case (Cons b rest)
  obtain idx batch where b: "b = (idx, batch)" by (cases b)
  from Cons.prems b obtain ps rs acc1 evs1 where
    ib: "infer_batch w nl m batch = Inr (ps, rs)" and
    ab: "add_batch ps rs acc = Inr acc1" and
    rest: "eval_phase w nl m rest (P @ ps, T @ rs, acc1) = (evs1, Inr (P', T', acc'))" and
    evs: "evs = EvalStep idx # evs1"
    by (auto split: sum.splits prod.splits)
  from Cons.IH[OF rest] obtain ps' rs' where
    e1: "evs1 = map (\<lambda>b. EvalStep (fst b)) rest" and
    P': "P' = (P @ ps) @ ps'" and T': "T' = (T @ rs) @ rs'" and
    a': "acc' = \<lparr>m_predictions = m_predictions acc1 @ ps',
                  m_references = m_references acc1 @ rs'\<rparr>" and
    len: "length ps' = length rs'" and
    bl: "batch_labels (concat (map snd rest)) = Inr rs'" and
    rng: "0 < nl \<longrightarrow> (\<forall>p\<in>set ps'. 0 \<le> p \<and> p < int nl)"
    by blast
  from ab have a1: "acc1 = \<lparr>m_predictions = m_predictions acc @ ps,
                             m_references = m_references acc @ rs\<rparr>"
    and l1: "length ps = length rs"
    by (simp_all add: add_batch_Inr)
  have bl': "batch_labels (batch @ concat (map snd rest)) = Inr (rs @ rs')"
    using infer_batch_Inr(1)[OF ib] bl by (rule batch_labels_append)
  have rng': "0 < nl \<longrightarrow> (\<forall>p\<in>set (ps @ ps'). 0 \<le> p \<and> p < int nl)"
    using rng infer_batch_Inr(4)[OF ib] by auto
  from a1 a' len l1 e1 evs P' T' bl' rng' b show ?case
    by (intro conjI exI[of _ "ps @ ps'"] exI[of _ "rs @ rs'"]) simp_all
qed

subsection \<open>Facts about one epoch and the epoch loop\<close>

lemma run_epoch_Inr:
  assumes "run_epoch w nl tr te ep s = (evs, Inr s')"
  shows "\<exists>a. metrics s' = (metrics s)(ep \<mapsto> [''accuracy'' \<mapsto> a]) \<and> 0 \<le> a \<and> a \<le> 1"
    and "metric s' = load_metric"
    and "draws s' = snd (sample_indices w (snd (sample_indices w (draws s) tr)) te)"
    and "evs = map (\<lambda>b. TrainStep ep (fst b)) (batches tr (fst (sample_indices w (draws s) tr)))
             @ map (\<lambda>b. TestStep ep (fst b))
                 (batches te (fst (sample_indices w (snd (sample_indices w (draws s) tr)) te)))"
proof -
  obtain idx d1 where si: "sample_indices w (draws s) tr = (idx, d1)"
    by (cases "sample_indices w (draws s) tr")
  obtain tidx d2 where ti: "sample_indices w d1 te = (tidx, d2)"
    by (cases "sample_indices w d1 te")
  from assms si have
    "then_io (train_phase w ep (batches tr idx) (model s)) (\<lambda>m'.
       case sample_indices w d1 te of (tidx, d2) \<Rightarrow>
       then_io (test_phase w nl m' ep (batches te tidx) (metric s)) (\<lambda>acc.
       case compute acc of
         Inl e \<Rightarrow> ([], Inl e)
       | Inr (test_metric, acc') \<Rightarrow>
           ([], Inr \<lparr>model = m', metric = acc', draws = d2,
                     metrics = (metrics s)(ep \<mapsto> test_metric)\<rparr>))) = (evs, Inr s')"
    by (simp add: run_epoch_def)
  then obtain e1 m' e23 where
    tp: "train_phase w ep (batches tr idx) (model s) = (e1, Inr m')" and
    r1: "(case sample_indices w d1 te of (tidx, d2) \<Rightarrow>
       then_io (test_phase w nl m' ep (batches te tidx) (metric s)) (\<lambda>acc.
       case compute acc of
         Inl e \<Rightarrow> ([], Inl e)
       | Inr (test_metric, acc') \<Rightarrow>
           ([], Inr \<lparr>model = m', metric = acc', draws = d2,
                     metrics = (metrics s)(ep \<mapsto> test_metric)\<rparr>))) = (e23, Inr s')" and
    ev1: "evs = e1 @ e23"
    unfolding then_io_Inr by blast
  from r1 ti have
    "then_io (test_phase w nl m' ep (batches te tidx) (metric s)) (\<lambda>acc.
       case compute acc of
         Inl e \<Rightarrow> ([], Inl e)
       | Inr (test_metric, acc') \<Rightarrow>
           ([], Inr \<lparr>model = m', metric = acc', draws = d2,
                     metrics = (metrics s)(ep \<mapsto> test_metric)\<rparr>)) = (e23, Inr s')"
    by simp
  then obtain e2 acc e3 where
    tt: "test_phase w nl m' ep (batches te tidx) (metric s) = (e2, Inr acc)" and
    r2: "(case compute acc of
         Inl e \<Rightarrow> ([], Inl e)
       | Inr (test_metric, acc') \<Rightarrow>
           ([], Inr \<lparr>model = m', metric = acc', draws = d2,
                     metrics = (metrics s)(ep \<mapsto> test_metric)\<rparr>)) = (e3, Inr s')" and
    ev2: "e23 = e2 @ e3"
    unfolding then_io_Inr by blast
  from r2 obtain test_metric acc' where
    co: "compute acc = Inr (test_metric, acc')" and
    s': "s' = \<lparr>model = m', metric = acc', draws = d2,
               metrics = (metrics s)(ep \<mapsto> test_metric)\<rparr>" and
    e3: "e3 = []"
    by (cases "compute acc") auto
  from ev1 ev2 e3 have evs: "evs = e1 @ e2" by simp
  from co have tm: "test_metric = [''accuracy'' \<mapsto> accuracy (m_predictions acc) (m_references acc)]"
    and acc': "acc' = load_metric"
    by (simp_all add: compute_Inr)
  show "\<exists>a. metrics s' = (metrics s)(ep \<mapsto> [''accuracy'' \<mapsto> a]) \<and> 0 \<le> a \<and> a \<le> 1"
    using s' tm accuracy_bounds[of "m_predictions acc" "m_references acc"] by auto
  show "metric s' = load_metric" using s' acc' by simp
  show "draws s' = snd (sample_indices w (snd (sample_indices w (draws s) tr)) te)"
    using s' si ti by simp
  show "evs = map (\<lambda>b. TrainStep ep (fst b)) (batches tr (fst (sample_indices w (draws s) tr)))
             @ map (\<lambda>b. TestStep ep (fst b))
                 (batches te (fst (sample_indices w (snd (sample_indices w (draws s) tr)) te)))"
    using evs train_phase_Inr[OF tp] test_phase_Inr[OF tt] si ti by simp
qed

lemma run_epoch_events:
  "\<forall>ev\<in>set (fst (run_epoch w nl tr te ep s)).
     (\<exists>idx. ev = TrainStep ep idx) \<or> (\<exists>idx. ev = TestStep ep idx)"
proof -
  obtain idx d1 where si: "sample_indices w (draws s) tr = (idx, d1)"
    by (cases "sample_indices w (draws s) tr")
  obtain tidx d2 where ti: "sample_indices w d1 te = (tidx, d2)"
    by (cases "sample_indices w d1 te")
  show ?thesis
    unfolding run_epoch_def si ti prod.case
  proof (intro then_io_events)
    show "\<forall>ev\<in>set (fst (train_phase w ep (batches tr idx) (model s))).
        (\<exists>idx. ev = TrainStep ep idx) \<or> (\<exists>idx. ev = TestStep ep idx)"
      using train_phase_events[of w ep "batches tr idx" "model s"] by blast
  next
    fix m'
    show "\<forall>ev\<in>set (fst (test_phase w nl m' ep (batches te tidx) (metric s))).
        (\<exists>idx. ev = TrainStep ep idx) \<or> (\<exists>idx. ev = TestStep ep idx)"
      using test_phase_events[of w nl m' ep "batches te tidx" "metric s"] by blast
  next
    fix m' acc
    show "\<forall>ev\<in>set (fst (case compute acc of Inl e \<Rightarrow> ([], Inl e)
          | Inr (test_metric, acc') \<Rightarrow>
              ([], Inr \<lparr>model = m', metric = acc', draws = d2,
                        metrics = (metrics s)(ep \<mapsto> test_metric)\<rparr>))).
        (\<exists>idx. ev = TrainStep ep idx) \<or> (\<exists>idx. ev = TestStep ep idx)"
      by (auto split: sum.splits)
  qed
qed

lemma epoch_loop_events:
  "\<forall>ev\<in>set (fst (epoch_loop w nl tr te es s)).
     (\<exists>ep idx. ev = TrainStep ep idx) \<or> (\<exists>ep idx. ev = TestStep ep idx)"
proof (induction es arbitrary: s)
  case Nil
  then show ?case by simp
next
  case (Cons ep es)
  obtain e1 r where re: "run_epoch w nl tr te ep s = (e1, r)"
    by (cases "run_epoch w nl tr te ep s")
  have e1: "\<forall>ev\<in>set e1. (\<exists>ep idx. ev = TrainStep ep idx) \<or> (\<exists>ep idx. ev = TestStep ep idx)"
    using run_epoch_events[of w nl tr te ep s] re by fastforce
  show ?case
  proof (cases r)
    case (Inl e)
    with re e1 show ?thesis by simp
  next
    case (Inr s1)
    obtain e2 r2 where el: "epoch_loop w nl tr te es s1 = (e2, r2)"
      by (cases "epoch_loop w nl tr te es s1")
    with Cons.IH[of s1] have
      "\<forall>ev\<in>set e2. (\<exists>ep idx. ev = TrainStep ep idx) \<or> (\<exists>ep idx. ev = TestStep ep idx)"
      by simp
    with re Inr el e1 show ?thesis by auto
  qed
qed

lemma epoch_loop_Inr:
  assumes "epoch_loop w nl tr te es s = (evs, Inr s')"
  shows "dom (metrics s') = dom (metrics s) \<union> set es"
    and "\<forall>e\<in>set es. \<exists>a. metrics s' e = Some [''accuracy'' \<mapsto> a] \<and> 0 \<le> a \<and> a \<le> 1"
    and "\<forall>e. e \<notin> set es \<longrightarrow> metrics s' e = metrics s e"
    and "metric s = load_metric \<longrightarrow> metric s' = load_metric"
  using assms
proof (induction es arbitrary: s evs)
  case Nil
  {
    case 1 then show ?case by simp
  next
    case 2 then show ?case by simp
  next
    case 3 then show ?case by simp
  next
    case 4 then show ?case by simp
  }
next
  case (Cons ep es)
  {
    case 1
    then obtain e1 s1 e2 where re: "run_epoch w nl tr te ep s = (e1, Inr s1)"
      and el: "epoch_loop w nl tr te es s1 = (e2, Inr s')"
      by (auto split: sum.splits prod.splits)
    from run_epoch_Inr(1)[OF re] Cons.IH(1)[OF el] show ?case by auto
  next
    case 2
    then obtain e1 s1 e2 where re: "run_epoch w nl tr te ep s = (e1, Inr s1)"
      and el: "epoch_loop w nl tr te es s1 = (e2, Inr s')"
      by (auto split: sum.splits prod.splits)
    from run_epoch_Inr(1)[OF re] obtain a where
      a: "metrics s1 = (metrics s)(ep \<mapsto> [''accuracy'' \<mapsto> a])" "0 \<le> a" "a \<le> 1"
      by blast
    show ?case
    proof
      fix e assume e: "e \<in> set (ep # es)"
      show "\<exists>a. metrics s' e = Some [''accuracy'' \<mapsto> a] \<and> 0 \<le> a \<and> a \<le> 1"
      proof (cases "e \<in> set es")
        case True
        with Cons.IH(2)[OF el] show ?thesis by blast
      next
        case False
        with e have "e = ep" by simp
        moreover from False Cons.IH(3)[OF el] have "metrics s' e = metrics s1 e" by blast
        ultimately show ?thesis using a by auto
      qed
    qed
  next
    case 3
    then obtain e1 s1 e2 where re: "run_epoch w nl tr te ep s = (e1, Inr s1)"
      and el: "epoch_loop w nl tr te es s1 = (e2, Inr s')"
      by (auto split: sum.splits prod.splits)
    from run_epoch_Inr(1)[OF re] Cons.IH(3)[OF el] show ?case by auto
  next
    case 4
    then obtain e1 s1 e2 where re: "run_epoch w nl tr te ep s = (e1, Inr s1)"
      and el: "epoch_loop w nl tr te es s1 = (e2, Inr s')"
      by (auto split: sum.splits prod.splits)
    from run_epoch_Inr(2)[OF re] Cons.IH(4)[OF el] show ?case by auto
  }
qed

subsection \<open>Facts about data preparation\<close>

lemma traverse_Inr: "traverse f xs = Inr ys \<longleftrightarrow> list_all2 (\<lambda>x y. f x = Inr y) xs ys"
proof (induction xs arbitrary: ys)
  case Nil
  then show ?case by auto
next
  case (Cons x xs)
  show ?case
    by (auto simp: list_all2_Cons1 Cons.IH [symmetric] split: sum.splits)
qed

lemma column_length: "column ds c = Inr vs \<Longrightarrow> length vs = length ds"
  by (simp add: column_def traverse_Inr list_all2_lengthD)

lemma map_row_tokenize_Inr:
  "map_row (tokenize w) cols r = Inr r' \<longleftrightarrow>
     (\<exists>texto. r ''texto'' = Some (Str texto) \<and>
        r' = (r |` (- set cols)) ++ tokenizer w texto True 512)"
  by (auto simp: map_row_def tokenize_def split: option.splits cell.splits sum.splits)

lemma dataset_map_tokenize_Inr:
  assumes "dataset_map (tokenize w) [''texto'', ''nota''] ds = Inr tds"
  shows "length tds = length ds"
    and "\<forall>i<length ds. \<exists>texto nota.
           (ds ! i) ''texto'' = Some (Str texto) \<and> (ds ! i) ''nota'' = Some nota \<and>
           tds ! i = ((ds ! i) |` (- {''texto'', ''nota''})) ++ tokenizer w texto True 512"
proof -
  from assms have cols: "list_all (\<lambda>r. list_all (\<lambda>c. r c \<noteq> None) [''texto'', ''nota'']) ds"
    and tr: "list_all2 (\<lambda>r r'. map_row (tokenize w) [''texto'', ''nota''] r = Inr r') ds tds"
    by (auto simp: dataset_map_def traverse_Inr split: if_splits)
  from tr show len: "length tds = length ds"
    by (simp add: list_all2_lengthD)
  show "\<forall>i<length ds. \<exists>texto nota.
           (ds ! i) ''texto'' = Some (Str texto) \<and> (ds ! i) ''nota'' = Some nota \<and>
           tds ! i = ((ds ! i) |` (- {''texto'', ''nota''})) ++ tokenizer w texto True 512"
  proof (intro allI impI)
    fix i assume i: "i < length ds"
    from tr i have "map_row (tokenize w) [''texto'', ''nota''] (ds ! i) = Inr (tds ! i)"
      by (simp add: list_all2_conv_all_nth)
    then obtain texto where t: "(ds ! i) ''texto'' = Some (Str texto)"
      and r: "tds ! i = ((ds ! i) |` (- set [''texto'', ''nota''])) ++ tokenizer w texto True 512"
      unfolding map_row_tokenize_Inr by blast
    from cols have "\<forall>r\<in>set ds. r ''nota'' \<noteq> None"
      by (simp add: list_all_iff)
    with i have "(ds ! i) ''nota'' \<noteq> None"
      by simp
    with t r show "\<exists>texto nota.
           (ds ! i) ''texto'' = Some (Str texto) \<and> (ds ! i) ''nota'' = Some nota \<and>
           tds ! i = ((ds ! i) |` (- {''texto'', ''nota''})) ++ tokenizer w texto True 512"
      by auto
  qed
qed

lemma prepare_Inr:
  assumes "prepare cfg w c = (evs, Inr (tr, te, ev))"
  shows "\<exists>ds1 ds2 ds3 t1 t2 t3.
      parquet w (train_file c) = Some ds1 \<and> parquet w (test_file c) = Some ds2 \<and>
      parquet w (eval_file c) = Some ds3 \<and>
      dataset_map (tokenize w) [''texto'', ''nota''] ds1 = Inr t1 \<and>
      dataset_map (tokenize w) [''texto'', ''nota''] ds2 = Inr t2 \<and>
      dataset_map (tokenize w) [''texto'', ''nota''] ds3 = Inr t3 \<and>
      0 < batch_size cfg \<and>
      tr = \<lparr>dataset = t1, shuffle = True, dl_batch_size = batch_size cfg\<rparr> \<and>
      te = \<lparr>dataset = t2, shuffle = False, dl_batch_size = batch_size cfg\<rparr> \<and>
      ev = \<lparr>dataset = t3, shuffle = False, dl_batch_size = batch_size cfg\<rparr> \<and>
      evs = [FromPretrained (model_name_or_path cfg), LoadDataset (train_file c),
             LoadDataset (test_file c), LoadDataset (eval_file c), LoadMetric ''accuracy'']"
  using assms
  by (auto simp: prepare_def then_io_Inr lift_Inr load_dataset_def DataLoader_def
      split: option.splits if_splits)

lemma prepare_events:
  "\<forall>ev\<in>set (fst (prepare cfg w c)). is_file_io ev \<and> \<not> is_model_step ev \<and> \<not> is_json_dump ev"
  unfolding prepare_def
  by (intro then_io_events)
     (simp_all add: load_dataset_def fst_lift is_file_io_def is_model_step_def is_json_dump_def)

lemma prepare_missing:
  assumes "parquet w (train_file c) = None \<or> parquet w (test_file c) = None \<or>
           parquet w (eval_file c) = None"
  shows "\<exists>p\<in>{train_file c, test_file c, eval_file c}.
           parquet w p = None \<and> snd (prepare cfg w c) = Inl (FileNotFoundError p)"
proof (cases "parquet w (train_file c)")
  case None
  then show ?thesis
    by (simp add: prepare_def then_io_def load_dataset_def)
next
  case s1: (Some ds1)
  show ?thesis
  proof (cases "parquet w (test_file c)")
    case None
    with s1 show ?thesis
      by (simp add: prepare_def then_io_def load_dataset_def)
  next
    case s2: (Some ds2)
    with s1 assms have "parquet w (eval_file c) = None" by simp
    with s1 s2 show ?thesis
      by (simp add: prepare_def then_io_def load_dataset_def)
  qed
qed

subsection \<open>Facts about assembly, final evaluation and reporting\<close>

lemma assemble_Inr:
  assumes "assemble cfg w (tr, te, ev) = (evs, Inr (m, sizes))"
  shows "m = pretrained w (model_name_or_path cfg) (n_labels cfg)"
    and "sizes = (length (dataset tr), length (dataset te), length (dataset ev))"
    and "evs = [FromPretrained (model_name_or_path cfg)]"
  using assms
  by (auto simp: assemble_def then_io_Inr lift_Inr column_length)

lemma assemble_events:
  "\<forall>ev\<in>set (fst (assemble cfg w dls)). is_file_io ev \<and> \<not> is_model_step ev \<and> \<not> is_json_dump ev"
proof -
  obtain tr te ev where dls: "dls = (tr, te, ev)" by (cases dls)
  show ?thesis
    unfolding assemble_def dls prod.case
    by (intro then_io_events)
       (simp_all add: fst_lift is_file_io_def is_model_step_def is_json_dump_def)
qed

lemma final_eval_events:
  "\<forall>ev\<in>set (fst (final_eval w nl dl s)). \<exists>idx. ev = EvalStep idx"
proof -
  obtain idx d where si: "sample_indices w (draws s) dl = (idx, d)"
    by (cases "sample_indices w (draws s) dl")
  show ?thesis
    unfolding final_eval_def si prod.case
    by (intro then_io_events eval_phase_events)
       (auto simp: fst_then_io_lift split: prod.splits sum.splits)
qed

lemma final_eval_Inr:
  assumes fe: "final_eval w nl dl s = (evs, Inr (P, T, em, cmx))"
    and sh: "\<not> shuffle dl" and bs: "0 < dl_batch_size dl"
    and ms: "metric s = load_metric"
  shows "batch_labels (dataset dl) = Inr T"
    and "length P = length T"
    and "T \<noteq> []"
    and "em = [''accuracy'' \<mapsto> accuracy P T]"
    and "confusion_matrix T P = Inr cmx"
    and "evs = map EvalStep (chunks (dl_batch_size dl) [0..<length (dataset dl)])"
    and "0 < nl \<longrightarrow> (\<forall>p\<in>set P. 0 \<le> p \<and> p < int nl)"
proof -
  let ?idx = "[0..<length (dataset dl)]"
  from sh have si: "sample_indices w (draws s) dl = (?idx, draws s)"
    by (simp add: sample_indices_def)
  from fe si ms have
    "then_io (eval_phase w nl (model s) (batches dl ?idx) ([], [], load_metric))
        (\<lambda>(all_predictions, all_references, acc).
      then_io (lift (compute acc)) (\<lambda>(eval_metric, acc').
      then_io (lift (confusion_matrix all_references all_predictions)) (\<lambda>cm.
      ([], Inr (all_predictions, all_references, eval_metric, cm)))))
     = (evs, Inr (P, T, em, cmx))"
    by (simp add: final_eval_def)
  then obtain e1 st e2 where
    ep: "eval_phase w nl (model s) (batches dl ?idx) ([], [], load_metric) = (e1, Inr st)" and
    r1: "(case st of (all_predictions, all_references, acc) \<Rightarrow>
      then_io (lift (compute acc)) (\<lambda>(eval_metric, acc').
      then_io (lift (confusion_matrix all_references all_predictions)) (\<lambda>cm.
      ([], Inr (all_predictions, all_references, eval_metric, cm)))))
     = (e2, Inr (P, T, em, cmx))" and
    ev1: "evs = e1 @ e2"
    unfolding then_io_Inr by blast
  obtain P1 T1 acc where st: "st = (P1, T1, acc)" by (cases st)
  from r1 st have co: "compute acc = Inr (em, load_metric)"
    and cmx: "confusion_matrix T1 P1 = Inr cmx" and PT: "P1 = P" "T1 = T" and e2: "e2 = []"
    by (auto simp: then_io_Inr lift_Inr compute_Inr split: prod.splits)
  from eval_phase_Inr[OF ep[unfolded st]] obtain ps rs where
    e1: "e1 = map (\<lambda>b. EvalStep (fst b)) (batches dl ?idx)" and
    P1: "P1 = [] @ ps" and T1: "T1 = [] @ rs" and
    acc: "acc = \<lparr>m_predictions = m_predictions load_metric @ ps,
                  m_references = m_references load_metric @ rs\<rparr>" and
    len: "length ps = length rs" and
    bl: "batch_labels (concat (map snd (batches dl ?idx))) = Inr rs" and
    rng: "0 < nl \<longrightarrow> (\<forall>p\<in>set ps. 0 \<le> p \<and> p < int nl)"
    by blast
  from bl bs show "batch_labels (dataset dl) = Inr T"
    using PT T1 by (simp add: batches_in_order)
  from len P1 T1 PT show "length P = length T" by simp
  from co acc T1 PT show "T \<noteq> []"
    by (simp add: compute_Inr load_metric_def)
  from co acc P1 T1 PT show "em = [''accuracy'' \<mapsto> accuracy P T]"
    by (simp add: compute_Inr load_metric_def)
  from cmx PT show "confusion_matrix T P = Inr cmx" by simp
  from ev1 e1 e2 show "evs = map EvalStep (chunks (dl_batch_size dl) ?idx)"
    by (simp add: batches_def comp_def)
  from rng P1 PT show "0 < nl \<longrightarrow> (\<forall>p\<in>set P. 0 \<le> p \<and> p < int nl)" by simp
qed

lemma report_Inr:
  assumes "report cfg w c obs (n1, n2, n3) ms (P, T, em, cmx) = (evs, Inr out)"
  shows "o_cm out = cmx" and "o_all_predictions out = P" and "o_all_references out = T"
    and "o_results out =
      \<lparr>r_batch_size = batch_size cfg, r_model = model_name_or_path cfg,
       r_epochs = num_epochs cfg, r_metrics = ms, r_conjunto = c,
       r_obs = obs, r_padding_side = padding_side cfg, r_train_size = n1,
       r_test_size = n2, r_eval_size = n3, r_n_labels = n_labels cfg,
       r_validation_metric = em, r_date = strftime (now w),
       r_processing_time = (end_time w - start_time w) / 60\<rparr>"
    and "evs = [ToCsv (csv_file c (num_epochs cfg)) cmx, SaveFig (png_file c (num_epochs cfg)),
                JsonDump (json_file (strftime (now w)) c (num_epochs cfg)) (o_results out) 4,
                Print ''finish!!'']"
  using assms
  by (auto simp: report_def then_io_Inr write_file_def Let_def split: if_splits)

lemma report_events:
  "\<forall>ev\<in>set (fst (report cfg w c obs sizes ms fe)). \<not> is_model_step ev"
proof -
  obtain n1 n2 n3 where sizes: "sizes = (n1, n2, n3)" by (cases sizes)
  obtain P T em cmx where fe: "fe = (P, T, em, cmx)" by (cases fe)
  show ?thesis
    unfolding report_def sizes fe prod.case Let_def
    by (intro then_io_events) (simp_all add: write_file_def is_model_step_def)
qed

lemma report_Inl:
  assumes "snd (report cfg w c obs sizes ms fe) = Inl e"
  shows "\<forall>ev\<in>set (fst (report cfg w c obs sizes ms fe)). \<not> is_json_dump ev"
proof -
  obtain n1 n2 n3 where sizes: "sizes = (n1, n2, n3)" by (cases sizes)
  obtain P T em cmx where fe: "fe = (P, T, em, cmx)" by (cases fe)
  from assms show ?thesis
    unfolding sizes fe
    by (auto simp: report_def then_io_def write_file_def Let_def is_json_dump_def
        split: if_splits)
qed

subsection \<open>A run that reaches its end\<close>

lemma read_args_Inr:
  "read_args av = (evs, Inr (c, obs)) \<longleftrightarrow>
     2 \<le> length av \<and> evs = [] \<and> c = av ! 1 \<and> obs = (if length av > 2 then av ! 2 else [])"
  by (auto simp: read_args_def)

lemma run_finished:
  assumes "run cfg w = (evs, Inr out)"
  obtains c obs tr te ev e2 s e4 P T em cmx e5 e6 where
    "2 \<le> length (argv w)" and "c = argv w ! 1"
    and "prepare cfg w c = (e2, Inr (tr, te, ev))"
    and "epoch_loop w (n_labels cfg) tr te [0..<num_epochs cfg]
           \<lparr>model = pretrained w (model_name_or_path cfg) (n_labels cfg),
            metric = load_metric, draws = 0, metrics = Map.empty\<rparr> = (e4, Inr s)"
    and "final_eval w (n_labels cfg) ev s = (e5, Inr (P, T, em, cmx))"
    and "report cfg w c obs (length (dataset tr), length (dataset te), length (dataset ev))
           (metrics s) (P, T, em, cmx) = (e6, Inr out)"
    and "evs = e2 @ [FromPretrained (model_name_or_path cfg)] @ e4 @ e5 @ e6"
proof -
  from assms obtain e1 a r1 where
    ra: "read_args (argv w) = (e1, Inr a)" and
    k1: "(case a of (conjunto, obs) \<Rightarrow>
     then_io (prepare cfg w conjunto) (\<lambda>(train_dataloader, test_dataloader, eval_dataloader).
     then_io (assemble cfg w (train_dataloader, test_dataloader, eval_dataloader))
       (\<lambda>(m, sizes).
     then_io (epoch_loop w (n_labels cfg) train_dataloader test_dataloader
                [0..<num_epochs cfg]
                \<lparr>model = m, metric = load_metric, draws = 0, metrics = Map.empty\<rparr>) (\<lambda>s.
     then_io (final_eval w (n_labels cfg) eval_dataloader s) (\<lambda>ev.
     report cfg w conjunto obs sizes (metrics s) ev))))) = (r1, Inr out)" and
    ev1: "evs = e1 @ r1"
    unfolding run_def then_io_Inr by blast
  obtain c obs where a: "a = (c, obs)" by (cases a)
  from ra a have len: "2 \<le> length (argv w)" and c: "c = argv w ! 1" and e1: "e1 = []"
    by (simp_all add: read_args_Inr)
  from k1 a obtain e2 dls r2 where
    pr: "prepare cfg w c = (e2, Inr dls)" and
    k2: "(case dls of (train_dataloader, test_dataloader, eval_dataloader) \<Rightarrow>
     then_io (assemble cfg w (train_dataloader, test_dataloader, eval_dataloader))
       (\<lambda>(m, sizes).
     then_io (epoch_loop w (n_labels cfg) train_dataloader test_dataloader
                [0..<num_epochs cfg]
                \<lparr>model = m, metric = load_metric, draws = 0, metrics = Map.empty\<rparr>) (\<lambda>s.
     then_io (final_eval w (n_labels cfg) eval_dataloader s) (\<lambda>ev.
     report cfg w c obs sizes (metrics s) ev)))) = (r2, Inr out)" and
    ev2: "r1 = e2 @ r2"
    by (auto simp: then_io_Inr)
  obtain tr te ev where dls: "dls = (tr, te, ev)" by (cases dls)
  from k2 dls obtain e3 ms r3 where
    as: "assemble cfg w (tr, te, ev) = (e3, Inr ms)" and
    k3: "(case ms of (m, sizes) \<Rightarrow>
     then_io (epoch_loop w (n_labels cfg) tr te
                [0..<num_epochs cfg]
                \<lparr>model = m, metric = load_metric, draws = 0, metrics = Map.empty\<rparr>) (\<lambda>s.
     then_io (final_eval w (n_labels cfg) ev s) (\<lambda>fe.
     report cfg w c obs sizes (metrics s) fe))) = (r3, Inr out)" and
    ev3: "r2 = e3 @ r3"
    by (auto simp: then_io_Inr)
  obtain m sizes where ms: "ms = (m, sizes)" by (cases ms)
  from assemble_Inr[OF as[unfolded ms]] have
    m: "m = pretrained w (model_name_or_path cfg) (n_labels cfg)" and
    sizes: "sizes = (length (dataset tr), length (dataset te), length (dataset ev))" and
    e3: "e3 = [FromPretrained (model_name_or_path cfg)]"
    by simp_all
  from k3 ms obtain e4 s r4 where
    el: "epoch_loop w (n_labels cfg) tr te [0..<num_epochs cfg]
           \<lparr>model = m, metric = load_metric, draws = 0, metrics = Map.empty\<rparr> = (e4, Inr s)" and
    k4: "then_io (final_eval w (n_labels cfg) ev s) (\<lambda>fe.
           report cfg w c obs sizes (metrics s) fe) = (r4, Inr out)" and
    ev4: "r3 = e4 @ r4"
    by (auto simp: then_io_Inr)
  from k4 obtain e5 fe e6 where
    fe: "final_eval w (n_labels cfg) ev s = (e5, Inr fe)" and
    rp: "report cfg w c obs sizes (metrics s) fe = (e6, Inr out)" and
    ev5: "r4 = e5 @ e6"
    unfolding then_io_Inr by blast
  obtain P T em cmx where fe': "fe = (P, T, em, cmx)" by (cases fe)
  show thesis
  proof (rule that[OF len c pr[unfolded dls] el[unfolded m] fe[unfolded fe']
        rp[unfolded fe' sizes]])
    show "evs = e2 @ [FromPretrained (model_name_or_path cfg)] @ e4 @ e5 @ e6"
      using ev1 e1 ev2 ev3 e3 ev4 ev5 by simp
  qed
qed

subsection \<open>The concrete run reaches its end\<close>

lemma finishedI:
  "(case snd r of Inr a \<Rightarrow> True | Inl e \<Rightarrow> False) \<Longrightarrow> \<exists>evs a. r = (evs, Inr a)"
  by (cases r; cases "snd r") auto

lemma run7_finishes: "\<exists>evs out. run settings7 world7 = (evs, Inr out)"
proof (rule finishedI)
  show "case snd (run settings7 world7) of Inr a \<Rightarrow> True | Inl e \<Rightarrow> False"
    by code_simp
qed

subsection \<open>The final evaluation of a finished run\<close>

lemma partitions_prepare:
  assumes "prepare cfg w (argv w ! 1) = (e2, Inr (tr, te, ev))"
  shows "train_partition cfg w = dataset tr" and "test_partition cfg w = dataset te"
    and "eval_partition cfg w = dataset ev"
  using assms
  by (simp_all add: train_partition_def test_partition_def eval_partition_def partitions_def)

lemma run_eval:
  assumes "run cfg w = (evs, Inr out)"
  shows "confusion_matrix (o_all_references out) (o_all_predictions out) = Inr (o_cm out)"
    and "batch_labels (eval_partition cfg w) = Inr (o_all_references out)"
    and "length (o_all_predictions out) = length (eval_partition cfg w)"
    and "length (o_all_references out) = length (eval_partition cfg w)"
    and "r_eval_size (o_results out) = length (eval_partition cfg w)"
    and "eval_partition cfg w \<noteq> []"
    and "r_validation_metric (o_results out) =
           [''accuracy'' \<mapsto> accuracy (o_all_predictions out) (o_all_references out)]"
    and "0 < n_labels cfg \<longrightarrow>
           (\<forall>p\<in>set (o_all_predictions out). 0 \<le> p \<and> p < int (n_labels cfg))"
proof -
  from assms obtain c obs tr te ev e2 s e4 P T em cmx e5 e6 where
    "2 \<le> length (argv w)" and c: "c = argv w ! 1"
    and pr: "prepare cfg w c = (e2, Inr (tr, te, ev))"
    and el: "epoch_loop w (n_labels cfg) tr te [0..<num_epochs cfg]
           \<lparr>model = pretrained w (model_name_or_path cfg) (n_labels cfg),
            metric = load_metric, draws = 0, metrics = Map.empty\<rparr> = (e4, Inr s)"
    and fe: "final_eval w (n_labels cfg) ev s = (e5, Inr (P, T, em, cmx))"
    and rp: "report cfg w c obs (length (dataset tr), length (dataset te), length (dataset ev))
           (metrics s) (P, T, em, cmx) = (e6, Inr out)"
    and "evs = e2 @ [FromPretrained (model_name_or_path cfg)] @ e4 @ e5 @ e6"
    by (rule run_finished)
  from prepare_Inr[OF pr] have sh: "\<not> shuffle ev" and bs: "0 < dl_batch_size ev"
    by auto
  from epoch_loop_Inr(4)[OF el] have ms: "metric s = load_metric" by simp
  note f = final_eval_Inr[OF fe sh bs ms]
  note r = report_Inr[OF rp]
  have ep: "eval_partition cfg w = dataset ev"
    using pr c by (simp add: partitions_prepare)
  show "confusion_matrix (o_all_references out) (o_all_predictions out) = Inr (o_cm out)"
    using f(5) r(1,2,3) by simp
  show "batch_labels (eval_partition cfg w) = Inr (o_all_references out)"
    using f(1) r(3) ep by simp
  then show l: "length (o_all_references out) = length (eval_partition cfg w)"
    by (rule batch_labels_length)
  then show "length (o_all_predictions out) = length (eval_partition cfg w)"
    using f(2) r(2,3) by simp
  show "r_eval_size (o_results out) = length (eval_partition cfg w)"
    using r(4) ep by simp
  show "eval_partition cfg w \<noteq> []"
    using f(3) l r(3) by auto
  show "r_validation_metric (o_results out) =
           [''accuracy'' \<mapsto> accuracy (o_all_predictions out) (o_all_references out)]"
    using f(4) r(2,3,4) by simp
  show "0 < n_labels cfg \<longrightarrow>
           (\<forall>p\<in>set (o_all_predictions out). 0 \<le> p \<and> p < int (n_labels cfg))"
    using f(7) r(2) by simp
qed

subsection \<open>Runs that end in an exception\<close>

lemma then_io_failing:
  assumes "snd (then_io m f) = Inl e"
    and "\<forall>ev\<in>set (fst m). Q ev"
    and "\<And>a. snd m = Inr a \<Longrightarrow> snd (f a) = Inl e \<Longrightarrow> \<forall>ev\<in>set (fst (f a)). Q ev"
  shows "\<forall>ev\<in>set (fst (then_io m f)). Q ev"
proof (cases m)
  case (Pair evs r)
  show ?thesis
  proof (cases r)
    case (Inl e')
    with Pair assms(2) show ?thesis by (simp add: then_io_def)
  next
    case (Inr a)
    obtain evs' r' where fa: "f a = (evs', r')" by (cases "f a")
    with Pair Inr assms(1) have "r' = Inl e" by (simp add: then_io_def)
    with assms(3)[of a] Pair Inr fa have "\<forall>ev\<in>set evs'. Q ev" by simp
    with Pair Inr fa assms(2) show ?thesis by (auto simp: then_io_def)
  qed
qed

lemma then_io_snd_Inl:
  "snd (then_io m f) = Inl e \<Longrightarrow> snd m = Inr a \<Longrightarrow> snd (f a) = Inl e"
  by (cases m; cases "f a") (auto simp: then_io_def)

lemma then_io_ret: "then_io ([], Inr a) f = f a"
  by (cases "f a") (simp add: then_io_def)

lemma then_io_raise: "then_io (evs, Inl e) f = (evs, Inl e)"
  by (simp add: then_io_def)

lemma read_args_events: "\<forall>ev\<in>set (fst (read_args av)). \<exists>s. ev = Print s"
  by (simp add: read_args_def)

lemma run_Inl_no_json:
  assumes "snd (run cfg w) = Inl e"
  shows "\<forall>ev\<in>set (fst (run cfg w)). \<not> is_json_dump ev"
proof -
  have steps: "(\<exists>ep idx. ev = TrainStep ep idx) \<or> (\<exists>ep idx. ev = TestStep ep idx)
      \<Longrightarrow> \<not> is_json_dump ev" for ev
    by (auto simp: is_json_dump_def)
  have evalstep: "\<exists>idx. ev = EvalStep idx \<Longrightarrow> \<not> is_json_dump ev" for ev
    by (auto simp: is_json_dump_def)
  have prints: "\<exists>s. ev = Print s \<Longrightarrow> \<not> is_json_dump ev" for ev
    by (auto simp: is_json_dump_def)
  from assms show ?thesis
    unfolding run_def split_beta
  proof (elim then_io_failing)
    show "\<forall>ev\<in>set (fst (read_args (argv w))). \<not> is_json_dump ev"
      using read_args_events prints by blast
  next
    fix a
    show "\<forall>ev\<in>set (fst (prepare cfg w (fst a))). \<not> is_json_dump ev"
      using prepare_events by blast
  next
    fix a b
    show "\<forall>ev\<in>set (fst (assemble cfg w (fst b, fst (snd b), snd (snd b)))). \<not> is_json_dump ev"
      using assemble_events by blast
  next
    fix a b c
    show "\<forall>ev\<in>set (fst (epoch_loop w (n_labels cfg) (fst b) (fst (snd b)) [0..<num_epochs cfg]
              \<lparr>model = fst c, metric = load_metric, draws = 0, metrics = Map.empty\<rparr>)).
            \<not> is_json_dump ev"
      using epoch_loop_events steps by blast
  next
    fix a b c s
    show "\<forall>ev\<in>set (fst (final_eval w (n_labels cfg) (snd (snd b)) s)). \<not> is_json_dump ev"
      using final_eval_events evalstep by blast
  next
    fix a b c s fe
    assume "snd (report cfg w (fst a) (snd a) (snd c) (metrics s) fe) = Inl e"
    then show "\<forall>ev\<in>set (fst (report cfg w (fst a) (snd a) (snd c) (metrics s) fe)).
        \<not> is_json_dump ev"
      by (rule report_Inl)
  qed
qed

lemma run_missing_file:
  assumes len: "2 \<le> length (argv w)"
    and miss: "parquet w (train_file (argv w ! 1)) = None \<or>
               parquet w (test_file (argv w ! 1)) = None \<or>
               parquet w (eval_file (argv w ! 1)) = None"
  shows "\<exists>p\<in>{train_file (argv w ! 1), test_file (argv w ! 1), eval_file (argv w ! 1)}.
           parquet w p = None \<and> snd (run cfg w) = Inl (FileNotFoundError p)"
    and "\<forall>ev\<in>set (fst (run cfg w)). \<not> is_model_step ev"
proof -
  let ?c = "argv w ! 1"
  from prepare_missing[OF miss, of cfg] obtain p where
    p: "p \<in> {train_file ?c, test_file ?c, eval_file ?c}" "parquet w p = None"
      "snd (prepare cfg w ?c) = Inl (FileNotFoundError p)"
    by blast
  obtain evs where pr: "prepare cfg w ?c = (evs, Inl (FileNotFoundError p))"
    using p(3) by (cases "prepare cfg w ?c") auto
  from len have ra: "read_args (argv w) = ([], Inr (?c, if length (argv w) > 2 then argv w ! 2 else []))"
    by (simp add: read_args_def)
  have run: "run cfg w = (evs, Inl (FileNotFoundError p))"
    unfolding run_def ra by (simp only: then_io_ret prod.case pr then_io_raise)
  from p run show "\<exists>p\<in>{train_file ?c, test_file ?c, eval_file ?c}.
           parquet w p = None \<and> snd (run cfg w) = Inl (FileNotFoundError p)"
    by auto
  from prepare_events[of cfg w ?c] pr run
  show "\<forall>ev\<in>set (fst (run cfg w)). \<not> is_model_step ev"
    by simp
qed

subsection \<open>The time stamp\<close>

lemma show_nat_digit: "n < 10 \<Longrightarrow> show_nat n = [''0123456789'' ! n]"
  by (subst show_nat.simps) simp

lemma show_nat_two_digits:
  "10 \<le> n \<Longrightarrow> n < 100 \<Longrightarrow> show_nat n = [''0123456789'' ! (n div 10), ''0123456789'' ! (n mod 10)]"
  by (subst show_nat.simps) (simp add: show_nat_digit)

lemma pad2_two_digits:
  "n < 100 \<Longrightarrow> pad2 n = [''0123456789'' ! (n div 10), ''0123456789'' ! (n mod 10)]"
  by (cases "n < 10") (simp_all add: pad2_def show_nat_digit show_nat_two_digits)

lemma run_events:
  assumes "run cfg w = (evs, Inr out)"
  obtains e4 s where
    "evs =
      [FromPretrained (model_name_or_path cfg), LoadDataset (train_file (argv w ! 1)),
       LoadDataset (test_file (argv w ! 1)), LoadDataset (eval_file (argv w ! 1)),
       LoadMetric ''accuracy'', FromPretrained (model_name_or_path cfg)]
      @ e4
      @ map EvalStep (chunks (batch_size cfg) [0..<length (eval_partition cfg w)])
      @ [ToCsv (csv_file (argv w ! 1) (num_epochs cfg)) (o_cm out),
         SaveFig (png_file (argv w ! 1) (num_epochs cfg)),
         JsonDump (json_file (strftime (now w)) (argv w ! 1) (num_epochs cfg)) (o_results out) 4,
         Print ''finish!!'']"
    and "epoch_loop w (n_labels cfg)
         \<lparr>dataset = train_partition cfg w, shuffle = True, dl_batch_size = batch_size cfg\<rparr>
         \<lparr>dataset = test_partition cfg w, shuffle = False, dl_batch_size = batch_size cfg\<rparr>
         [0..<num_epochs cfg]
         \<lparr>model = pretrained w (model_name_or_path cfg) (n_labels cfg),
          metric = load_metric, draws = 0, metrics = Map.empty\<rparr> = (e4, Inr s)"
    and "0 < batch_size cfg"
proof -
  from assms obtain c obs tr te ev e2 s e4 P T em cmx e5 e6 where
    "2 \<le> length (argv w)" and c: "c = argv w ! 1"
    and pr: "prepare cfg w c = (e2, Inr (tr, te, ev))"
    and el: "epoch_loop w (n_labels cfg) tr te [0..<num_epochs cfg]
           \<lparr>model = pretrained w (model_name_or_path cfg) (n_labels cfg),
            metric = load_metric, draws = 0, metrics = Map.empty\<rparr> = (e4, Inr s)"
    and fe: "final_eval w (n_labels cfg) ev s = (e5, Inr (P, T, em, cmx))"
    and rp: "report cfg w c obs (length (dataset tr), length (dataset te), length (dataset ev))
           (metrics s) (P, T, em, cmx) = (e6, Inr out)"
    and evs: "evs = e2 @ [FromPretrained (model_name_or_path cfg)] @ e4 @ e5 @ e6"
    by (rule run_finished)
  from prepare_Inr[OF pr] obtain t1 t2 t3 where
    bs: "0 < batch_size cfg" and
    tr: "tr = \<lparr>dataset = t1, shuffle = True, dl_batch_size = batch_size cfg\<rparr>" and
    te: "te = \<lparr>dataset = t2, shuffle = False, dl_batch_size = batch_size cfg\<rparr>" and
    ev: "ev = \<lparr>dataset = t3, shuffle = False, dl_batch_size = batch_size cfg\<rparr>" and
    e2: "e2 = [FromPretrained (model_name_or_path cfg), LoadDataset (train_file c),
             LoadDataset (test_file c), LoadDataset (eval_file c), LoadMetric ''accuracy'']"
    by auto
  have parts: "train_partition cfg w = t1" "test_partition cfg w = t2"
    "eval_partition cfg w = t3"
    using partitions_prepare[OF pr[unfolded c]] tr te ev by simp_all
  from epoch_loop_Inr(4)[OF el] have ms: "metric s = load_metric" by simp
  have e5: "e5 = map EvalStep (chunks (batch_size cfg) [0..<length (eval_partition cfg w)])"
    using final_eval_Inr(6)[OF fe _ _ ms] ev bs parts by simp
  have e6: "e6 = [ToCsv (csv_file c (num_epochs cfg)) (o_cm out),
         SaveFig (png_file c (num_epochs cfg)),
         JsonDump (json_file (strftime (now w)) c (num_epochs cfg)) (o_results out) 4,
         Print ''finish!!'']"
    using report_Inr(1,5)[OF rp] by simp
  show thesis
  proof (rule that[OF _ _ bs])
    show "evs =
      [FromPretrained (model_name_or_path cfg), LoadDataset (train_file (argv w ! 1)),
       LoadDataset (test_file (argv w ! 1)), LoadDataset (eval_file (argv w ! 1)),
       LoadMetric ''accuracy'', FromPretrained (model_name_or_path cfg)]
      @ e4
      @ map EvalStep (chunks (batch_size cfg) [0..<length (eval_partition cfg w)])
      @ [ToCsv (csv_file (argv w ! 1) (num_epochs cfg)) (o_cm out),
         SaveFig (png_file (argv w ! 1) (num_epochs cfg)),
         JsonDump (json_file (strftime (now w)) (argv w ! 1) (num_epochs cfg)) (o_results out) 4,
         Print ''finish!!'']"
      using evs e2 e5 e6 c by simp
    show "epoch_loop w (n_labels cfg)
         \<lparr>dataset = train_partition cfg w, shuffle = True, dl_batch_size = batch_size cfg\<rparr>
         \<lparr>dataset = test_partition cfg w, shuffle = False, dl_batch_size = batch_size cfg\<rparr>
         [0..<num_epochs cfg]
         \<lparr>model = pretrained w (model_name_or_path cfg) (n_labels cfg),
          metric = load_metric, draws = 0, metrics = Map.empty\<rparr> = (e4, Inr s)"
      using el tr te parts by simp
  qed
qed

lemma epoch_loop_no_json:
  "filter is_json_dump (fst (epoch_loop w nl tr te es s)) = []"
  using epoch_loop_events[of w nl tr te es s]
  by (auto simp: filter_empty_conv is_json_dump_def)

subsection \<open>The tokenized partitions\<close>

lemma dom_transformed: "dom ((r |` (- A)) ++ t) = (dom r - A) \<union> dom t"
  by (simp add: Diff_eq Un_commute)

lemma toy_tokenizer_honours_max_length: "honours_max_length toy_tokenizer"
  by (simp add: honours_max_length_def toy_tokenizer_def Let_def)

subsection \<open>The order of the records\<close>

lemma positions_append:
  "train_positions e (xs @ ys) = train_positions e xs @ train_positions e ys"
  "test_positions e (xs @ ys) = test_positions e xs @ test_positions e ys"
  "eval_positions (xs @ ys) = eval_positions xs @ eval_positions ys"
  by (simp_all add: train_positions_def test_positions_def eval_positions_def)

lemma positions_Cons:
  "train_positions e (ev # evs) =
     (case ev of TrainStep e' idx \<Rightarrow> if e' = e then idx else [] | _ \<Rightarrow> []) @ train_positions e evs"
  "test_positions e (ev # evs) =
     (case ev of TestStep e' idx \<Rightarrow> if e' = e then idx else [] | _ \<Rightarrow> []) @ test_positions e evs"
  "eval_positions (ev # evs) =
     (case ev of EvalStep idx \<Rightarrow> idx | _ \<Rightarrow> []) @ eval_positions evs"
  by (simp_all add: train_positions_def test_positions_def eval_positions_def)

lemma positions_Nil:
  "train_positions e [] = []" "test_positions e [] = []" "eval_positions [] = []"
  by (simp_all add: train_positions_def test_positions_def eval_positions_def)

lemma positions_train_steps:
  "train_positions e (map (\<lambda>b. TrainStep ep (fst b)) bs) = (if ep = e then concat (map fst bs) else [])"
  "test_positions e (map (\<lambda>b. TrainStep ep (fst b)) bs) = []"
  "eval_positions (map (\<lambda>b. TrainStep ep (fst b)) bs) = []"
  by (induction bs) (simp_all add: positions_Cons positions_Nil)

lemma positions_test_steps:
  "train_positions e (map (\<lambda>b. TestStep ep (fst b)) bs) = []"
  "test_positions e (map (\<lambda>b. TestStep ep (fst b)) bs) = (if ep = e then concat (map fst bs) else [])"
  "eval_positions (map (\<lambda>b. TestStep ep (fst b)) bs) = []"
  by (induction bs) (simp_all add: positions_Cons positions_Nil)

lemma positions_eval_steps:
  "train_positions e (map EvalStep cs) = []"
  "test_positions e (map EvalStep cs) = []"
  "eval_positions (map EvalStep cs) = concat cs"
  by (induction cs) (simp_all add: positions_Cons positions_Nil)

lemma run_epoch_positions:
  assumes re: "run_epoch w nl tr te ep s = (evs, Inr s')"
    and sh: "shuffle tr" "\<not> shuffle te"
    and bs: "0 < dl_batch_size tr" "0 < dl_batch_size te"
  shows "train_positions e evs = (if ep = e then randperm w (draws s) (length (dataset tr)) else [])"
    and "test_positions e evs = (if ep = e then [0..<length (dataset te)] else [])"
    and "eval_positions evs = []"
    and "draws s' = Suc (draws s)"
proof -
  from sh have si: "sample_indices w (draws s) tr = (randperm w (draws s) (length (dataset tr)), Suc (draws s))"
    and ti: "sample_indices w (Suc (draws s)) te = ([0..<length (dataset te)], Suc (draws s))"
    by (simp_all add: sample_indices_def)
  from run_epoch_Inr(4)[OF re] si ti have
    evs: "evs = map (\<lambda>b. TrainStep ep (fst b)) (batches tr (randperm w (draws s) (length (dataset tr))))
             @ map (\<lambda>b. TestStep ep (fst b)) (batches te [0..<length (dataset te)])"
    by simp
  show "train_positions e evs = (if ep = e then randperm w (draws s) (length (dataset tr)) else [])"
    unfolding evs positions_append positions_train_steps positions_test_steps
    using bs by (simp add: batches_positions)
  show "test_positions e evs = (if ep = e then [0..<length (dataset te)] else [])"
    unfolding evs positions_append positions_train_steps positions_test_steps
    using bs by (simp add: batches_positions)
  show "eval_positions evs = []"
    unfolding evs positions_append positions_train_steps positions_test_steps by simp
  from run_epoch_Inr(3)[OF re] si ti show "draws s' = Suc (draws s)" by simp
qed

lemma epoch_loop_positions:
  assumes "epoch_loop w nl tr te es s = (evs, Inr s')"
    and "shuffle tr" "\<not> shuffle te"
    and "0 < dl_batch_size tr" "0 < dl_batch_size te"
    and "distinct es"
  shows "\<forall>k<length es.
           train_positions (es ! k) evs = randperm w (draws s + k) (length (dataset tr)) \<and>
           test_positions (es ! k) evs = [0..<length (dataset te)]"
    and "\<forall>e. e \<notin> set es \<longrightarrow> train_positions e evs = [] \<and> test_positions e evs = []"
    and "eval_positions evs = []"
  using assms(1,6)
proof (induction es arbitrary: s evs)
  case Nil
  {
    case 1 then show ?case by simp
  next
    case 2 then show ?case by (simp add: positions_Nil)
  next
    case 3 then show ?case by (simp add: positions_Nil)
  }
next
  case (Cons ep es)
  note sh = assms(2,3) and bs = assms(4,5)
  {
    case 1
    then obtain e1 s1 e2 where re: "run_epoch w nl tr te ep s = (e1, Inr s1)"
      and el: "epoch_loop w nl tr te es s1 = (e2, Inr s')" and evs: "evs = e1 @ e2"
      by (auto split: sum.splits prod.splits)
    from 1 have d: "distinct es" and nin: "ep \<notin> set es" by simp_all
    note p = run_epoch_positions[OF re sh bs]
    show ?case
    proof (intro allI impI)
      fix k assume k: "k < length (ep # es)"
      show "train_positions ((ep # es) ! k) evs = randperm w (draws s + k) (length (dataset tr)) \<and>
           test_positions ((ep # es) ! k) evs = [0..<length (dataset te)]"
      proof (cases k)
        case 0
        with Cons.IH(2)[OF el d] nin p(1,2)[of ep] show ?thesis
          by (simp add: evs positions_append)
      next
        case (Suc j)
        with k have j: "j < length es" by simp
        then have ne: "ep \<noteq> es ! j" using nin by auto
        from Cons.IH(1)[OF el d] j p(4) have
          "train_positions (es ! j) e2 = randperm w (Suc (draws s) + j) (length (dataset tr))"
          "test_positions (es ! j) e2 = [0..<length (dataset te)]"
          by simp_all
        with Suc ne p(1,2)[of "es ! j"] show ?thesis
          by (simp add: evs positions_append)
      qed
    qed
  next
    case 2
    then obtain e1 s1 e2 where re: "run_epoch w nl tr te ep s = (e1, Inr s1)"
      and el: "epoch_loop w nl tr te es s1 = (e2, Inr s')" and evs: "evs = e1 @ e2"
      by (auto split: sum.splits prod.splits)
    from 2 have d: "distinct es" by simp
    note p = run_epoch_positions[OF re sh bs]
    show ?case
    proof (intro allI impI)
      fix e assume "e \<notin> set (ep # es)"
      then have "ep \<noteq> e" and "e \<notin> set es" by auto
      with Cons.IH(2)[OF el d] p(1,2)[of e]
      show "train_positions e evs = [] \<and> test_positions e evs = []"
        by (simp add: evs positions_append)
    qed
  next
    case 3
    then obtain e1 s1 e2 where re: "run_epoch w nl tr te ep s = (e1, Inr s1)"
      and el: "epoch_loop w nl tr te es s1 = (e2, Inr s')" and evs: "evs = e1 @ e2"
      by (auto split: sum.splits prod.splits)
    from 3 have d: "distinct es" by simp
    from Cons.IH(3)[OF el d] run_epoch_positions(3)[OF re sh bs] show ?case
      by (simp add: evs positions_append)
  }
qed

subsection \<open>When a run reaches its end\<close>

lemma batch_labels_total:
  "\<forall>r\<in>set rows. \<exists>v. r ''labels'' = Some (Num v) \<Longrightarrow> \<exists>vs. batch_labels rows = Inr vs"
  by (induction rows) auto

lemma infer_batch_total:
  assumes "forward w m batch \<noteq> None"
    and "\<forall>r\<in>set batch. \<exists>v. r ''labels'' = Some (Num v)"
  shows "\<exists>ps rs. infer_batch w nl m batch = Inr (ps, rs)"
  using assms(1) batch_labels_total[OF assms(2)]
  by (auto simp: infer_batch_def Let_def)

lemma train_phase_total:
  assumes "\<forall>m b. train_step w m b \<noteq> None"
  shows "\<exists>evs m'. train_phase w ep bs m = (evs, Inr m')"
proof (induction bs arbitrary: m)
  case Nil
  then show ?case by simp
next
  case (Cons b bs)
  obtain idx batch where b: "b = (idx, batch)" by (cases b)
  from assms obtain m1 where m1: "train_step w m batch = Some m1" by fastforce
  from Cons[of m1] obtain evs m' where "train_phase w ep bs m1 = (evs, Inr m')" by blast
  with b m1 show ?case by simp
qed

lemma test_phase_total:
  assumes "\<forall>m b. forward w m b \<noteq> None"
    and "\<forall>b\<in>set bs. \<forall>r\<in>set (snd b). \<exists>v. r ''labels'' = Some (Num v)"
  shows "\<exists>evs acc'. test_phase w nl m ep bs acc = (evs, Inr acc')"
  using assms(2)
proof (induction bs arbitrary: acc)
  case Nil
  then show ?case by simp
next
  case (Cons b bs)
  obtain idx batch where b: "b = (idx, batch)" by (cases b)
  with Cons.prems have lab: "\<forall>r\<in>set batch. \<exists>v. r ''labels'' = Some (Num v)" by simp
  from assms(1) have "forward w m batch \<noteq> None" by simp
  from infer_batch_total[OF this lab] obtain ps rs where
    ib: "infer_batch w nl m batch = Inr (ps, rs)" by blast
  from infer_batch_Inr(2,3)[OF ib] obtain acc1 where
    ab: "add_batch ps rs acc = Inr acc1" by (simp add: add_batch_def)
  from Cons.IH[of acc1] Cons.prems obtain evs acc' where
    "test_phase w nl m ep bs acc1 = (evs, Inr acc')" by auto
  with b ib ab show ?case by simp
qed

lemma eval_phase_total:
  assumes "\<forall>m b. forward w m b \<noteq> None"
    and "\<forall>b\<in>set bs. \<forall>r\<in>set (snd b). \<exists>v. r ''labels'' = Some (Num v)"
  shows "\<exists>evs st'. eval_phase w nl m bs st = (evs, Inr st')"
  using assms(2)
proof (induction bs arbitrary: st)
  case Nil
  show ?case by (intro exI) (rule eval_phase.simps(1))
next
  case (Cons b bs)
  obtain idx batch where b: "b = (idx, batch)" by (cases b)
  obtain P T acc where st: "st = (P, T, acc)" by (cases st)
  from b Cons.prems have lab: "\<forall>r\<in>set batch. \<exists>v. r ''labels'' = Some (Num v)" by simp
  from assms(1) have "forward w m batch \<noteq> None" by simp
  from infer_batch_total[OF this lab] obtain ps rs where
    ib: "infer_batch w nl m batch = Inr (ps, rs)" by blast
  from infer_batch_Inr(2,3)[OF ib] obtain acc1 where
    ab: "add_batch ps rs acc = Inr acc1" by (simp add: add_batch_def)
  from Cons.IH[of "(P @ ps, T @ rs, acc1)"] Cons.prems obtain evs st' where
    "eval_phase w nl m bs (P @ ps, T @ rs, acc1) = (evs, Inr st')" by auto
  with b st ib ab show ?case
    by (intro exI[of _ "EvalStep idx # evs"] exI[of _ st']) simp
qed

lemma batches_in_order_rows:
  assumes "0 < dl_batch_size dl" and "b \<in> set (batches dl [0..<length (dataset dl)])"
  shows "set (snd b) \<subseteq> set (dataset dl)"
proof -
  from assms(2) have "set (snd b) \<subseteq> set (concat (map snd (batches dl [0..<length (dataset dl)])))"
    by auto
  with batches_in_order[OF assms(1)] show ?thesis by simp
qed

lemma run_epoch_total:
  assumes tr: "\<forall>m b. train_step w m b \<noteq> None" and fw: "\<forall>m b. forward w m b \<noteq> None"
    and sh: "\<not> shuffle te" and bs: "0 < dl_batch_size te" and ne: "dataset te \<noteq> []"
    and lab: "\<forall>r\<in>set (dataset te). \<exists>v. r ''labels'' = Some (Num v)"
  shows "\<exists>evs s'. run_epoch w nl trl te ep s = (evs, Inr s')"
proof -
  obtain idx d1 where si: "sample_indices w (draws s) trl = (idx, d1)"
    by (cases "sample_indices w (draws s) trl")
  from sh have ti: "sample_indices w d1 te = ([0..<length (dataset te)], d1)"
    by (simp add: sample_indices_def)
  from train_phase_total[OF tr] obtain e1 m' where
    tp: "train_phase w ep (batches trl idx) (model s) = (e1, Inr m')" by blast
  have "\<forall>b\<in>set (batches te [0..<length (dataset te)]). \<forall>r\<in>set (snd b).
      \<exists>v. r ''labels'' = Some (Num v)"
    using batches_in_order_rows[OF bs] lab by blast
  from test_phase_total[OF fw this] obtain e2 acc where
    tt: "test_phase w nl m' ep (batches te [0..<length (dataset te)]) (metric s) = (e2, Inr acc)"
    by blast
  from test_phase_Inr[OF tt] obtain ps rs where
    acc: "acc = \<lparr>m_predictions = m_predictions (metric s) @ ps,
                  m_references = m_references (metric s) @ rs\<rparr>" and
    bl: "batch_labels (concat (map snd (batches te [0..<length (dataset te)]))) = Inr rs"
    by blast
  from bl have "length rs = length (dataset te)"
    unfolding batches_in_order[OF bs] by (rule batch_labels_length)
  with ne acc have "m_references acc \<noteq> []" by auto
  then obtain test_metric acc' where co: "compute acc = Inr (test_metric, acc')"
    by (auto simp: compute_def)
  show ?thesis
    unfolding run_epoch_def si prod.case
    by (simp add: tp ti tt co then_io_def)
qed

lemma epoch_loop_total:
  assumes tr: "\<forall>m b. train_step w m b \<noteq> None" and fw: "\<forall>m b. forward w m b \<noteq> None"
    and sh: "\<not> shuffle te" and bs: "0 < dl_batch_size te" and ne: "dataset te \<noteq> []"
    and lab: "\<forall>r\<in>set (dataset te). \<exists>v. r ''labels'' = Some (Num v)"
  shows "\<exists>evs s'. epoch_loop w nl trl te es s = (evs, Inr s')"
proof (induction es arbitrary: s)
  case Nil
  then show ?case by simp
next
  case (Cons ep es)
  from run_epoch_total[OF assms] obtain e1 s1 where
    re: "run_epoch w nl trl te ep s = (e1, Inr s1)" by blast
  from Cons[of s1] obtain e2 s' where "epoch_loop w nl trl te es s1 = (e2, Inr s')" by blast
  with re show ?case by simp
qed

lemma final_eval_total:
  assumes fw: "\<forall>m b. forward w m b \<noteq> None"
    and sh: "\<not> shuffle ev" and bs: "0 < dl_batch_size ev" and ne: "dataset ev \<noteq> []"
    and lab: "\<forall>r\<in>set (dataset ev). \<exists>v. r ''labels'' = Some (Num v)"
  shows "\<exists>evs fe. final_eval w nl ev s = (evs, Inr fe)"
proof -
  let ?idx = "[0..<length (dataset ev)]"
  from sh have si: "sample_indices w (draws s) ev = (?idx, draws s)"
    by (simp add: sample_indices_def)
  have "\<forall>b\<in>set (batches ev ?idx). \<forall>r\<in>set (snd b). \<exists>v. r ''labels'' = Some (Num v)"
    using batches_in_order_rows[OF bs] lab by blast
  from eval_phase_total[OF fw this] obtain e1 st where
    ep: "eval_phase w nl (model s) (batches ev ?idx) ([], [], metric s) = (e1, Inr st)"
    by blast
  obtain P T acc where st: "st = (P, T, acc)" by (cases st)
  from eval_phase_Inr[OF ep[unfolded st]] obtain ps rs where
    P: "P = [] @ ps" and T: "T = [] @ rs" and
    acc: "acc = \<lparr>m_predictions = m_predictions (metric s) @ ps,
                  m_references = m_references (metric s) @ rs\<rparr>" and
    len: "length ps = length rs" and
    bl: "batch_labels (concat (map snd (batches ev ?idx))) = Inr rs"
    by blast
  from bl have "length rs = length (dataset ev)"
    unfolding batches_in_order[OF bs] by (rule batch_labels_length)
  with ne acc have "m_references acc \<noteq> []" by auto
  then obtain em acc' where co: "compute acc = Inr (em, acc')"
    by (auto simp: compute_def)
  from len P T obtain cmx where cm: "confusion_matrix T P = Inr cmx"
    by (auto simp: confusion_matrix_def Let_def)
  show ?thesis
    unfolding final_eval_def si prod.case
    by (simp add: ep st co cm then_io_def lift_def)
qed

lemma traverse_total:
  "\<forall>x\<in>set xs. \<exists>y. f x = Inr y \<Longrightarrow> \<exists>ys. traverse f xs = Inr ys"
  by (induction xs) auto

lemma column_total:
  "\<forall>r\<in>set ds. r c \<noteq> None \<Longrightarrow> \<exists>vs. column ds c = Inr vs"
  unfolding column_def by (rule traverse_total) auto

lemma report_total:
  assumes "\<forall>p. can_write w p"
  shows "\<exists>evs out. report cfg w c obs sizes ms fe = (evs, Inr out)"
proof -
  obtain n1 n2 n3 where sizes: "sizes = (n1, n2, n3)" by (cases sizes)
  obtain P T em cmx where fe: "fe = (P, T, em, cmx)" by (cases fe)
  from assms show ?thesis
    unfolding sizes fe
    by (simp add: report_def then_io_def write_file_def Let_def)
qed

lemma then_io_step: "then_io (e1, Inr a) f = (case f a of (e2, r) \<Rightarrow> (e1 @ e2, r))"
  by (simp add: then_io_def)

lemma dataset_map_tokenize_total:
  assumes "\<forall>r\<in>set ds. (\<exists>t. r ''texto'' = Some (Str t)) \<and> r ''nota'' \<noteq> None"
  shows "\<exists>tds. dataset_map (tokenize w) [''texto'', ''nota''] ds = Inr tds"
proof -
  from assms have "list_all (\<lambda>r. list_all (\<lambda>c. r c \<noteq> None) [''texto'', ''nota'']) ds"
    by (auto simp: list_all_iff)
  moreover from assms have "\<forall>r\<in>set ds. \<exists>y. map_row (tokenize w) [''texto'', ''nota''] r = Inr y"
    by (auto simp: map_row_tokenize_Inr)
  then have "\<exists>tds. traverse (map_row (tokenize w) [''texto'', ''nota'']) ds = Inr tds"
    by (rule traverse_total)
  ultimately show ?thesis
    by (simp add: dataset_map_def)
qed

lemma transformed_rows:
  assumes d: "dataset_map (tokenize w) [''texto'', ''nota''] ds = Inr tds"
    and r: "r \<in> set tds"
  shows "\<exists>r0\<in>set ds. \<exists>texto. r0 ''texto'' = Some (Str texto) \<and>
           r = (r0 |` (- {''texto'', ''nota''})) ++ tokenizer w texto True 512"
proof -
  from r obtain i where i: "i < length tds" and ri: "r = tds ! i"
    by (auto simp: in_set_conv_nth)
  from dataset_map_tokenize_Inr[OF d] i obtain texto where
    "i < length ds" "(ds ! i) ''texto'' = Some (Str texto)"
    "tds ! i = ((ds ! i) |` (- {''texto'', ''nota''})) ++ tokenizer w texto True 512"
    by auto
  with ri show ?thesis
    by (intro bexI[of _ "ds ! i"] exI[of _ texto]) simp_all
qed

lemma prepare_total:
  assumes f: "parquet w (train_file c) = Some ds1" "parquet w (test_file c) = Some ds2"
      "parquet w (eval_file c) = Some ds3"
    and d: "dataset_map (tokenize w) [''texto'', ''nota''] ds1 = Inr t1"
      "dataset_map (tokenize w) [''texto'', ''nota''] ds2 = Inr t2"
      "dataset_map (tokenize w) [''texto'', ''nota''] ds3 = Inr t3"
    and ne: "t1 \<noteq> []" and bs: "0 < batch_size cfg"
  shows "\<exists>evs. prepare cfg w c =
      (evs, Inr (\<lparr>dataset = t1, shuffle = True, dl_batch_size = batch_size cfg\<rparr>,
                 \<lparr>dataset = t2, shuffle = False, dl_batch_size = batch_size cfg\<rparr>,
                 \<lparr>dataset = t3, shuffle = False, dl_batch_size = batch_size cfg\<rparr>))"
  using ne bs
  by (simp add: prepare_def then_io_def load_dataset_def lift_def f d DataLoader_def)

lemma assemble_total:
  assumes "\<forall>r\<in>set (dataset tr). r ''input_ids'' \<noteq> None"
    and "\<forall>r\<in>set (dataset te). r ''input_ids'' \<noteq> None"
    and "\<forall>r\<in>set (dataset ev). r ''input_ids'' \<noteq> None"
  shows "\<exists>evs m sizes. assemble cfg w (tr, te, ev) = (evs, Inr (m, sizes))"
proof -
  from column_total[OF assms(1)] column_total[OF assms(2)] column_total[OF assms(3)]
  obtain c1 c2 c3 where "column (dataset tr) ''input_ids'' = Inr c1"
    "column (dataset te) ''input_ids'' = Inr c2" "column (dataset ev) ''input_ids'' = Inr c3"
    by blast
  then show ?thesis
    by (simp add: assemble_def then_io_def lift_def)
qed

text \<open>
  A run reaches its end when the dataset identifier is given, the three files exist with
  a text \<open>texto\<close> and a \<open>nota\<close> in every record, no partition is empty, test and
  eval records carry integer \<open>labels\<close>, the tokenizer produces \<open>input_ids\<close> and no
  \<open>labels\<close>, no model call raises, and the result files can be written.
\<close>

lemma run_total:
  assumes args: "2 \<le> length (argv w)"
    and f: "parquet w (train_file (argv w ! 1)) = Some ds1"
      "parquet w (test_file (argv w ! 1)) = Some ds2"
      "parquet w (eval_file (argv w ! 1)) = Some ds3"
    and rows: "\<forall>r\<in>set (ds1 @ ds2 @ ds3). (\<exists>t. r ''texto'' = Some (Str t)) \<and> r ''nota'' \<noteq> None"
    and ne: "ds1 \<noteq> []" "ds2 \<noteq> []" "ds3 \<noteq> []"
    and bs: "0 < batch_size cfg"
    and tok: "\<forall>text. tokenizer w text True 512 ''input_ids'' \<noteq> None \<and>
                     tokenizer w text True 512 ''labels'' = None"
    and labels: "\<forall>r\<in>set (ds2 @ ds3). \<exists>v. r ''labels'' = Some (Num v)"
    and tr: "\<forall>m b. train_step w m b \<noteq> None" and fw: "\<forall>m b. forward w m b \<noteq> None"
    and cw: "\<forall>p. can_write w p"
  shows "\<exists>evs out. run cfg w = (evs, Inr out)"
proof -
  let ?c = "argv w ! 1"
  from rows have r1: "\<forall>r\<in>set ds1. (\<exists>t. r ''texto'' = Some (Str t)) \<and> r ''nota'' \<noteq> None"
    and r2: "\<forall>r\<in>set ds2. (\<exists>t. r ''texto'' = Some (Str t)) \<and> r ''nota'' \<noteq> None"
    and r3: "\<forall>r\<in>set ds3. (\<exists>t. r ''texto'' = Some (Str t)) \<and> r ''nota'' \<noteq> None"
    by auto
  from dataset_map_tokenize_total[OF r1] dataset_map_tokenize_total[OF r2]
    dataset_map_tokenize_total[OF r3]
  obtain t1 t2 t3 where
    d: "dataset_map (tokenize w) [''texto'', ''nota''] ds1 = Inr t1"
      "dataset_map (tokenize w) [''texto'', ''nota''] ds2 = Inr t2"
      "dataset_map (tokenize w) [''texto'', ''nota''] ds3 = Inr t3"
    by blast
  from dataset_map_tokenize_Inr(1)[OF d(1)] dataset_map_tokenize_Inr(1)[OF d(2)]
    dataset_map_tokenize_Inr(1)[OF d(3)] ne
  have tne: "t1 \<noteq> []" "t2 \<noteq> []" "t3 \<noteq> []" by auto
  have ids: "r ''input_ids'' \<noteq> None"
    if "dataset_map (tokenize w) [''texto'', ''nota''] ds = Inr tds" "r \<in> set tds" for ds tds r
  proof -
    from transformed_rows[OF that] obtain r0 texto where
      r: "r = (r0 |` (- {''texto'', ''nota''})) ++ tokenizer w texto True 512"
      by blast
    from tok obtain y where "tokenizer w texto True 512 ''input_ids'' = Some y" by blast
    then show ?thesis
      unfolding r by (simp add: map_add_def)
  qed
  have lab: "\<exists>v. r ''labels'' = Some (Num v)"
    if "dataset_map (tokenize w) [''texto'', ''nota''] ds = Inr tds" "r \<in> set tds"
      "\<forall>r\<in>set ds. \<exists>v. r ''labels'' = Some (Num v)" for ds tds r
  proof -
    from transformed_rows[OF that(1,2)] obtain r0 texto where
      r0: "r0 \<in> set ds" and r: "r = (r0 |` (- {''texto'', ''nota''})) ++ tokenizer w texto True 512"
      by blast
    from tok have "tokenizer w texto True 512 ''labels'' = None" by blast
    then have "r ''labels'' = r0 ''labels''"
      unfolding r by (simp add: map_add_def restrict_map_def)
    with that(3) r0 show ?thesis by auto
  qed
  let ?tr = "\<lparr>dataset = t1, shuffle = True, dl_batch_size = batch_size cfg\<rparr>"
  let ?te = "\<lparr>dataset = t2, shuffle = False, dl_batch_size = batch_size cfg\<rparr>"
  let ?ev = "\<lparr>dataset = t3, shuffle = False, dl_batch_size = batch_size cfg\<rparr>"
  from prepare_total[OF f d tne(1) bs] obtain e2 where
    pr: "prepare cfg w ?c = (e2, Inr (?tr, ?te, ?ev))" by blast
  have "\<exists>evs m sizes. assemble cfg w (?tr, ?te, ?ev) = (evs, Inr (m, sizes))"
    using ids[OF d(1)] ids[OF d(2)] ids[OF d(3)] by (intro assemble_total) simp_all
  then obtain e3 m sizes where as: "assemble cfg w (?tr, ?te, ?ev) = (e3, Inr (m, sizes))"
    by blast
  from labels have l2: "\<forall>r\<in>set ds2. \<exists>v. r ''labels'' = Some (Num v)"
    and l3: "\<forall>r\<in>set ds3. \<exists>v. r ''labels'' = Some (Num v)" by auto
  have "\<exists>evs s'. epoch_loop w (n_labels cfg) ?tr ?te [0..<num_epochs cfg]
      \<lparr>model = m, metric = load_metric, draws = 0, metrics = Map.empty\<rparr> = (evs, Inr s')"
    using tne(2) bs lab[OF d(2) _ l2] by (intro epoch_loop_total[OF tr fw]) simp_all
  then obtain e4 s where el: "epoch_loop w (n_labels cfg) ?tr ?te [0..<num_epochs cfg]
      \<lparr>model = m, metric = load_metric, draws = 0, metrics = Map.empty\<rparr> = (e4, Inr s)"
    by blast
  have "\<exists>evs fe. final_eval w (n_labels cfg) ?ev s = (evs, Inr fe)"
    using tne(3) bs lab[OF d(3) _ l3] by (intro final_eval_total[OF fw]) simp_all
  then obtain e5 fe where fe: "final_eval w (n_labels cfg) ?ev s = (e5, Inr fe)"
    by blast
  from report_total[OF cw] obtain e6 out where
    rp: "report cfg w ?c (if length (argv w) > 2 then argv w ! 2 else []) sizes (metrics s) fe
          = (e6, Inr out)"
    by blast
  from args have ra: "read_args (argv w)
      = ([], Inr (?c, if length (argv w) > 2 then argv w ! 2 else []))"
    by (simp add: read_args_def)
  have "run cfg w = (e2 @ e3 @ e4 @ e5 @ e6, Inr out)"
    unfolding run_def ra
    by (simp only: then_io_ret then_io_step prod.case pr as el fe rp append_assoc append_Nil)
  then show ?thesis by blast
qed

section \<open>The claims\<close>

subsection \<open>C1\<close>

text \<open>
  C1. When the loop over \<open>range(num_epochs)\<close> has run from an empty metrics record, the
  record has exactly one entry for each epoch index \<open>0..E-1\<close> and no other, and each
  entry is a mapping with an accuracy between 0 and 1; so has the summary of every run
  that reaches its end. The loop has no other exit than an exception: when no model
  call raises and the test partition is not empty and carries labels, it runs through
  all \<open>E\<close> epochs.
\<close>

theorem metrics_one_entry_per_epoch:
  "(epoch_loop w nl train_dataloader test_dataloader [0..<E] s0 = (evs, Inr s)
      \<and> metrics s0 = Map.empty \<longrightarrow>
      dom (metrics s) = {0..<E} \<and> card (dom (metrics s)) = E \<and>
      (\<forall>epoch<E. \<exists>a. metrics s epoch = Some [''accuracy'' \<mapsto> a] \<and> 0 \<le> a \<and> a \<le> 1))
   \<and> (run cfg w = (evs', Inr out) \<longrightarrow>
      r_epochs (o_results out) = num_epochs cfg \<and>
      dom (r_metrics (o_results out)) = {0..<num_epochs cfg} \<and>
      card (dom (r_metrics (o_results out))) = num_epochs cfg \<and>
      (\<forall>epoch<num_epochs cfg. \<exists>a.
         r_metrics (o_results out) epoch = Some [''accuracy'' \<mapsto> a] \<and> 0 \<le> a \<and> a \<le> 1))
   \<and> ((\<forall>m b. train_step w m b \<noteq> None) \<and> (\<forall>m b. forward w m b \<noteq> None) \<and>
       \<not> shuffle test_dataloader \<and> 0 < dl_batch_size test_dataloader \<and>
       dataset test_dataloader \<noteq> [] \<and>
       (\<forall>r\<in>set (dataset test_dataloader). \<exists>v. r ''labels'' = Some (Num v)) \<longrightarrow>
      (\<exists>evs s. epoch_loop w nl train_dataloader test_dataloader [0..<E] s0 = (evs, Inr s)))"
proof (intro conjI impI)
  assume a: "epoch_loop w nl train_dataloader test_dataloader [0..<E] s0 = (evs, Inr s)
      \<and> metrics s0 = Map.empty"
  then have el: "epoch_loop w nl train_dataloader test_dataloader [0..<E] s0 = (evs, Inr s)"
    and em: "metrics s0 = Map.empty" by simp_all
  from epoch_loop_Inr(1)[OF el] em show d: "dom (metrics s) = {0..<E}" by simp
  then show "card (dom (metrics s)) = E" by simp
  from epoch_loop_Inr(2)[OF el]
  show "\<forall>epoch<E. \<exists>a. metrics s epoch = Some [''accuracy'' \<mapsto> a] \<and> 0 \<le> a \<and> a \<le> 1"
    by simp
next
  assume r: "run cfg w = (evs', Inr out)"
  from r obtain c obs tr te ev e2 s e4 P T em cmx e5 e6 where
    "2 \<le> length (argv w)" and "c = argv w ! 1"
    and "prepare cfg w c = (e2, Inr (tr, te, ev))"
    and el: "epoch_loop w (n_labels cfg) tr te [0..<num_epochs cfg]
           \<lparr>model = pretrained w (model_name_or_path cfg) (n_labels cfg),
            metric = load_metric, draws = 0, metrics = Map.empty\<rparr> = (e4, Inr s)"
    and "final_eval w (n_labels cfg) ev s = (e5, Inr (P, T, em, cmx))"
    and rp: "report cfg w c obs (length (dataset tr), length (dataset te), length (dataset ev))
           (metrics s) (P, T, em, cmx) = (e6, Inr out)"
    and "evs' = e2 @ [FromPretrained (model_name_or_path cfg)] @ e4 @ e5 @ e6"
    by (rule run_finished)
  from report_Inr(4)[OF rp] have ms: "r_metrics (o_results out) = metrics s"
    and ep: "r_epochs (o_results out) = num_epochs cfg"
    by simp_all
  from ep show "r_epochs (o_results out) = num_epochs cfg" .
  from epoch_loop_Inr(1)[OF el] ms
  show d: "dom (r_metrics (o_results out)) = {0..<num_epochs cfg}" by simp
  then show "card (dom (r_metrics (o_results out))) = num_epochs cfg" by simp
  from epoch_loop_Inr(2)[OF el] ms
  show "\<forall>epoch<num_epochs cfg. \<exists>a.
         r_metrics (o_results out) epoch = Some [''accuracy'' \<mapsto> a] \<and> 0 \<le> a \<and> a \<le> 1"
    by simp
next
  assume "(\<forall>m b. train_step w m b \<noteq> None) \<and> (\<forall>m b. forward w m b \<noteq> None) \<and>
       \<not> shuffle test_dataloader \<and> 0 < dl_batch_size test_dataloader \<and>
       dataset test_dataloader \<noteq> [] \<and>
       (\<forall>r\<in>set (dataset test_dataloader). \<exists>v. r ''labels'' = Some (Num v))"
  then show "\<exists>evs s. epoch_loop w nl train_dataloader test_dataloader [0..<E] s0 = (evs, Inr s)"
    by (intro epoch_loop_total) simp_all
qed

theorem metrics_one_entry_per_epoch_witness:
  "(\<forall>m b. train_step world7 m b \<noteq> None) \<and> (\<forall>m b. forward world7 m b \<noteq> None)
   \<and> \<not> shuffle (toy_loader False) \<and> 0 < dl_batch_size (toy_loader False)
   \<and> dataset (toy_loader False) \<noteq> []
   \<and> list_all (\<lambda>r. r ''labels'' \<in> {Some (Num 0), Some (Num 1)}) (dataset (toy_loader False))
   \<and> (\<exists>evs s. epoch_loop world7 3 (toy_loader True) (toy_loader False) [0..<2]
        \<lparr>model = 0, metric = load_metric, draws = 0, metrics = Map.empty\<rparr> = (evs, Inr s)
      \<and> dom (metrics s) = {0..<2} \<and> card (dom (metrics s)) = 2)
   \<and> (\<exists>evs out. run settings7 world7 = (evs, Inr out)
      \<and> r_epochs (o_results out) = 2
      \<and> dom (r_metrics (o_results out)) = {0..<2}
      \<and> card (dom (r_metrics (o_results out))) = 2)"
proof -
  let ?s0 = "\<lparr>model = 0 :: nat, metric = load_metric, draws = 0, metrics = Map.empty\<rparr>"
  have m: "(\<forall>m b. train_step world7 m b \<noteq> None) \<and> (\<forall>m b. forward world7 m b \<noteq> None)"
    by (simp add: world7_def toy_forward_def)
  have l: "\<not> shuffle (toy_loader False) \<and> 0 < dl_batch_size (toy_loader False)
      \<and> dataset (toy_loader False) \<noteq> []"
    by (simp add: toy_loader_def)
  have la: "list_all (\<lambda>r. r ''labels'' \<in> {Some (Num 0), Some (Num 1)}) (dataset (toy_loader False))"
    by code_simp
  then have la': "\<forall>r\<in>set (dataset (toy_loader False)). \<exists>v. r ''labels'' = Some (Num v)"
    by (auto simp: list_all_iff)
  have "\<exists>evs s. epoch_loop world7 3 (toy_loader True) (toy_loader False) [0..<2] ?s0
        = (evs, Inr s)"
    by (rule metrics_one_entry_per_epoch[where w = world7 and nl = 3
          and train_dataloader = "toy_loader True" and test_dataloader = "toy_loader False"
          and E = 2 and ?s0.0 = ?s0, THEN conjunct2, THEN conjunct2, THEN mp])
       (use m l la' in blast)
  then obtain evs s where
    el: "epoch_loop world7 3 (toy_loader True) (toy_loader False) [0..<2] ?s0 = (evs, Inr s)"
    by blast
  have "dom (metrics s) = {0..<2} \<and> card (dom (metrics s)) = 2 \<and>
      (\<forall>epoch<2. \<exists>a. metrics s epoch = Some [''accuracy'' \<mapsto> a] \<and> 0 \<le> a \<and> a \<le> 1)"
    by (rule metrics_one_entry_per_epoch[where w = world7 and nl = 3
          and train_dataloader = "toy_loader True" and test_dataloader = "toy_loader False"
          and E = 2 and ?s0.0 = ?s0 and evs = evs and s = s, THEN conjunct1, THEN mp])
       (use el in simp)
  with el have a: "\<exists>evs s. epoch_loop world7 3 (toy_loader True) (toy_loader False) [0..<2] ?s0
        = (evs, Inr s)
      \<and> dom (metrics s) = {0..<2} \<and> card (dom (metrics s)) = 2"
    by blast
  obtain evs' out where r: "run settings7 world7 = (evs', Inr out)"
    using run7_finishes by blast
  have n: "num_epochs settings7 = 2"
    by (simp add: settings7_def)
  have "r_epochs (o_results out) = num_epochs settings7 \<and>
      dom (r_metrics (o_results out)) = {0..<num_epochs settings7} \<and>
      card (dom (r_metrics (o_results out))) = num_epochs settings7 \<and>
      (\<forall>epoch<num_epochs settings7. \<exists>a.
         r_metrics (o_results out) epoch = Some [''accuracy'' \<mapsto> a] \<and> 0 \<le> a \<and> a \<le> 1)"
    by (rule metrics_one_entry_per_epoch[where w = world7 and cfg = settings7 and evs' = evs'
          and out = out, THEN conjunct2, THEN conjunct1, THEN mp]) (rule r)
  with r n have b: "\<exists>evs out. run settings7 world7 = (evs, Inr out)
      \<and> r_epochs (o_results out) = 2
      \<and> dom (r_metrics (o_results out)) = {0..<2}
      \<and> card (dom (r_metrics (o_results out))) = 2"
    by auto
  from m l la a b show ?thesis by blast
qed

subsection \<open>C2\<close>

text \<open>
  C2, as the code has it. Let \<open>T\<close> be the true labels of the eval records in order,
  \<open>P\<close> the predicted labels and \<open>L\<close> the distinct values of both in increasing
  order. The matrix of a finished run has one row and one column for each value of
  \<open>L\<close>; entry \<open>(i, j)\<close> is the number of eval records whose true label is \<open>L ! i\<close>
  and whose predicted label is \<open>L ! j\<close>; all cells sum to the number of eval records;
  row \<open>i\<close> sums to the number of eval records whose true label is \<open>L ! i\<close>. When the
  observed values are exactly \<open>0, \<dots>, n - 1\<close>, entry \<open>(i, j)\<close> counts the records with
  true label \<open>i\<close> and predicted label \<open>j\<close>.
\<close>

theorem confusion_matrix_counts_observed_labels:
  assumes "run cfg w = (evs, Inr out)"
  shows "batch_labels (eval_partition cfg w) = Inr (o_all_references out)
       \<and> length (o_all_predictions out) = length (eval_partition cfg w)
       \<and> length (o_cm out)
           = length (unique_labels (o_all_references out) (o_all_predictions out))
       \<and> (\<forall>i<length (o_cm out). \<forall>j<length (o_cm out).
            o_cm out ! i ! j =
              length (filter
                (\<lambda>(t, p). t = unique_labels (o_all_references out) (o_all_predictions out) ! i
                        \<and> p = unique_labels (o_all_references out) (o_all_predictions out) ! j)
                (zip (o_all_references out) (o_all_predictions out))))
       \<and> sum_list (map sum_list (o_cm out)) = length (eval_partition cfg w)
       \<and> (\<forall>i<length (o_cm out).
            sum_list (o_cm out ! i) =
              length (filter
                (\<lambda>t. t = unique_labels (o_all_references out) (o_all_predictions out) ! i)
                (o_all_references out)))
       \<and> (unique_labels (o_all_references out) (o_all_predictions out)
             = map int [0..<length (o_cm out)] \<longrightarrow>
           (\<forall>i<length (o_cm out). \<forall>j<length (o_cm out).
              o_cm out ! i ! j =
                length (filter (\<lambda>(t, p). t = int i \<and> p = int j)
                  (zip (o_all_references out) (o_all_predictions out)))))"
proof -
  let ?T = "o_all_references out" and ?P = "o_all_predictions out"
  let ?L = "unique_labels (o_all_references out) (o_all_predictions out)"
  note e = run_eval[OF assms]
  have n: "length (o_cm out) = length ?L"
    using e(1) by (simp add: confusion_matrix_Inr)
  have entry: "\<forall>i<length (o_cm out). \<forall>j<length (o_cm out).
      o_cm out ! i ! j = length (filter (\<lambda>(t, p). t = ?L ! i \<and> p = ?L ! j) (zip ?T ?P))"
    using confusion_matrix_entry[OF e(1)] n by simp
  have rows: "\<forall>i<length (o_cm out).
      sum_list (o_cm out ! i) = length (filter (\<lambda>t. t = ?L ! i) ?T)"
    using confusion_matrix_row_sum[OF e(1)] n by simp
  have total: "sum_list (map sum_list (o_cm out)) = length (eval_partition cfg w)"
    using confusion_matrix_total[OF e(1)] e(4) by simp
  have plain: "?L = map int [0..<length (o_cm out)] \<longrightarrow>
      (\<forall>i<length (o_cm out). \<forall>j<length (o_cm out).
         o_cm out ! i ! j = length (filter (\<lambda>(t, p). t = int i \<and> p = int j) (zip ?T ?P)))"
  proof (intro impI allI)
    fix i j
    assume L: "?L = map int [0..<length (o_cm out)]"
      and i: "i < length (o_cm out)" and j: "j < length (o_cm out)"
    from L i j have "?L ! i = int i" and "?L ! j = int j"
      by simp_all
    with entry i j
    show "o_cm out ! i ! j = length (filter (\<lambda>(t, p). t = int i \<and> p = int j) (zip ?T ?P))"
      by simp
  qed
  from e(2,3) n entry total rows plain show ?thesis
    by blast
qed

theorem confusion_matrix_counts_observed_labels_witness:
  "\<exists>evs out. run settings7 world7 = (evs, Inr out)
     \<and> o_all_references out = [0, 2, 0] \<and> o_all_predictions out = [0, 2, 2]
     \<and> unique_labels (o_all_references out) (o_all_predictions out) = [0, 2]
     \<and> o_cm out = [[1, 1], [0, 1]]
     \<and> sum_list (map sum_list (o_cm out)) = length (eval_partition settings7 world7)
     \<and> length (eval_partition settings7 world7) = 3"
proof -
  obtain evs out where r: "run settings7 world7 = (evs, Inr out)"
    using run7_finishes by blast
  have "case snd (run settings7 world7) of
          Inr out \<Rightarrow> o_all_references out = [0, 2, 0] \<and> o_all_predictions out = [0, 2, 2]
            \<and> o_cm out = [[1, 1], [0, 1]]
        | Inl e \<Rightarrow> False"
    by code_simp
  with r have v: "o_all_references out = [0, 2, 0]" "o_all_predictions out = [0, 2, 2]"
    "o_cm out = [[1, 1], [0, 1]]"
    by simp_all
  have u: "unique_labels [0, 2, 0] [0, 2, 2] = [0, 2]"
    by code_simp
  have n: "length (eval_partition settings7 world7) = 3"
    by code_simp
  from confusion_matrix_counts_observed_labels[OF r] have
    "sum_list (map sum_list (o_cm out)) = length (eval_partition settings7 world7)"
    by blast
  with r v u n show ?thesis by auto
qed

text \<open>
  C2 as stated fails when the observed labels are not \<open>0, \<dots>, n - 1\<close>. In the concrete
  run the eval records have the true labels 0, 2, 0 and the predicted labels 0, 2, 2:
  entry \<open>(0, 1)\<close> of the matrix is 1 although no record has true label 0 and predicted
  label 1, and row 1 sums to 1 although no record has true label 1.
\<close>

theorem confusion_matrix_label_index_counterexample:
  "\<exists>evs out. run settings7 world7 = (evs, Inr out)
     \<and> o_all_references out = [0, 2, 0] \<and> o_all_predictions out = [0, 2, 2]
     \<and> o_cm out ! 0 ! 1 = 1
     \<and> length (filter (\<lambda>(t, p). t = 0 \<and> p = 1)
          (zip (o_all_references out) (o_all_predictions out))) = 0
     \<and> sum_list (o_cm out ! 1) = 1
     \<and> length (filter (\<lambda>t. t = 1) (o_all_references out)) = 0"
proof -
  obtain evs out where r: "run settings7 world7 = (evs, Inr out)"
    using run7_finishes by blast
  have "case snd (run settings7 world7) of
          Inr out \<Rightarrow> o_all_references out = [0, 2, 0] \<and> o_all_predictions out = [0, 2, 2]
            \<and> o_cm out = [[1, 1], [0, 1]]
        | Inl e \<Rightarrow> False"
    by code_simp
  with r have v: "o_all_references out = [0, 2, 0]" "o_all_predictions out = [0, 2, 2]"
    "o_cm out = [[1, 1], [0, 1]]"
    by simp_all
  with r show ?thesis by auto
qed

subsection \<open>C3\<close>

text \<open>
  C3, as the code has it. When the dataset identifier is omitted, the run prints the
  usage message and ends at once in the \<^verbatim>\<open>SystemExit\<close> of a \<^verbatim>\<open>sys.exit()\<close> that
  was given no status; nothing else happened before: no file was read or written and no
  model was called.
\<close>

theorem usage_exit_before_file_io:
  assumes "length (argv w) < 2"
  shows "run cfg w = ([Print usage], Inl (SystemExit None))
       \<and> (\<forall>ev\<in>set (fst (run cfg w)). \<not> is_file_io ev \<and> \<not> is_model_step ev)"
  using assms
  by (simp add: run_def read_args_def then_io_def is_file_io_def is_model_step_def)

theorem usage_exit_before_file_io_witness:
  "length (argv world_no_args) < 2
   \<and> run settings7 world_no_args = ([Print usage], Inl (SystemExit None))
   \<and> list_all (\<lambda>ev. \<not> is_file_io ev \<and> \<not> is_model_step ev) (fst (run settings7 world_no_args))"
proof -
  have a: "length (argv world_no_args) < 2"
    by (simp add: world_no_args_def world7_def)
  from usage_exit_before_file_io[OF a, of settings7] a show ?thesis
    by (simp add: list_all_iff)
qed

text \<open>
  C3 as stated fails on the exit status: \<^verbatim>\<open>sys.exit()\<close> with no argument ends the
  process with status 0.
\<close>

theorem usage_exit_status_counterexample:
  "length (argv world_no_args) < 2
   \<and> fst (run script_settings world_no_args) = [Print usage]
   \<and> exit_status (run script_settings world_no_args) = 0"
  by (simp add: run_def read_args_def then_io_def exit_status_def world_no_args_def world7_def)

subsection \<open>C4\<close>

text \<open>
  C4, as the code has it. When the three partitions have been loaded and transformed,
  every record of every partition had a text column \<open>texto\<close> and is now the original
  record without the columns \<open>texto\<close> and \<open>nota\<close>, updated with what the tokenizer
  returned for the text with truncation on and \<open>max_length = 512\<close>. Its fields are
  therefore the tokenizer-produced fields together with every other original column;
  and with a tokenizer that honours \<open>max_length\<close> its \<open>input_ids\<close> have at most 512
  entries.
\<close>

theorem tokenization_keeps_other_columns:
  assumes "prepare cfg w c = (evs, Inr (train_dataloader, test_dataloader, eval_dataloader))"
  shows "\<forall>(path, tokenized)\<in>{(train_file c, dataset train_dataloader),
                               (test_file c, dataset test_dataloader),
                               (eval_file c, dataset eval_dataloader)}.
           \<exists>ds. parquet w path = Some ds \<and> length tokenized = length ds \<and>
             (\<forall>i<length ds. \<exists>texto.
                (ds ! i) ''texto'' = Some (Str texto) \<and>
                tokenized ! i =
                  ((ds ! i) |` (- {''texto'', ''nota''})) ++ tokenizer w texto True 512 \<and>
                dom (tokenized ! i) =
                  (dom (ds ! i) - {''texto'', ''nota''}) \<union> dom (tokenizer w texto True 512) \<and>
                (honours_max_length (tokenizer w) \<longrightarrow>
                   (\<exists>ids. (tokenized ! i) ''input_ids'' = Some (Seq ids) \<and> length ids \<le> 512)))"
proof -
  have one: "\<exists>ds. parquet w path = Some ds \<and> length tokenized = length ds \<and>
             (\<forall>i<length ds. \<exists>texto.
                (ds ! i) ''texto'' = Some (Str texto) \<and>
                tokenized ! i =
                  ((ds ! i) |` (- {''texto'', ''nota''})) ++ tokenizer w texto True 512 \<and>
                dom (tokenized ! i) =
                  (dom (ds ! i) - {''texto'', ''nota''}) \<union> dom (tokenizer w texto True 512) \<and>
                (honours_max_length (tokenizer w) \<longrightarrow>
                   (\<exists>ids. (tokenized ! i) ''input_ids'' = Some (Seq ids) \<and> length ids \<le> 512)))"
    if p: "parquet w path = Some ds"
      and d: "dataset_map (tokenize w) [''texto'', ''nota''] ds = Inr tokenized"
    for path ds tokenized
  proof (intro exI[of _ ds] conjI allI impI)
    show "parquet w path = Some ds" by (rule p)
    show "length tokenized = length ds" by (rule dataset_map_tokenize_Inr(1)[OF d])
    fix i assume i: "i < length ds"
    with dataset_map_tokenize_Inr(2)[OF d] obtain texto where
      t: "(ds ! i) ''texto'' = Some (Str texto)" and
      r: "tokenized ! i = ((ds ! i) |` (- {''texto'', ''nota''})) ++ tokenizer w texto True 512"
      by blast
    have h: "honours_max_length (tokenizer w) \<longrightarrow>
        (\<exists>ids. (tokenized ! i) ''input_ids'' = Some (Seq ids) \<and> length ids \<le> 512)"
    proof
      assume "honours_max_length (tokenizer w)"
      then obtain ids where "tokenizer w texto True 512 ''input_ids'' = Some (Seq ids)"
        and "length ids \<le> 512"
        unfolding honours_max_length_def by blast
      then show "\<exists>ids. (tokenized ! i) ''input_ids'' = Some (Seq ids) \<and> length ids \<le> 512"
        unfolding r by (simp add: map_add_def)
    qed
    have dm: "dom (tokenized ! i) =
        (dom (ds ! i) - {''texto'', ''nota''}) \<union> dom (tokenizer w texto True 512)"
      unfolding r by (rule dom_transformed)
    show "\<exists>texto.
                (ds ! i) ''texto'' = Some (Str texto) \<and>
                tokenized ! i =
                  ((ds ! i) |` (- {''texto'', ''nota''})) ++ tokenizer w texto True 512 \<and>
                dom (tokenized ! i) =
                  (dom (ds ! i) - {''texto'', ''nota''}) \<union> dom (tokenizer w texto True 512) \<and>
                (honours_max_length (tokenizer w) \<longrightarrow>
                   (\<exists>ids. (tokenized ! i) ''input_ids'' = Some (Seq ids) \<and> length ids \<le> 512))"
      by (intro exI[of _ texto] conjI t r dm h)
  qed
  from prepare_Inr[OF assms] obtain ds1 ds2 ds3 t1 t2 t3 where
    p: "parquet w (train_file c) = Some ds1" "parquet w (test_file c) = Some ds2"
    "parquet w (eval_file c) = Some ds3" and
    d: "dataset_map (tokenize w) [''texto'', ''nota''] ds1 = Inr t1"
    "dataset_map (tokenize w) [''texto'', ''nota''] ds2 = Inr t2"
    "dataset_map (tokenize w) [''texto'', ''nota''] ds3 = Inr t3" and
    l: "train_dataloader = \<lparr>dataset = t1, shuffle = True, dl_batch_size = batch_size cfg\<rparr>"
    "test_dataloader = \<lparr>dataset = t2, shuffle = False, dl_batch_size = batch_size cfg\<rparr>"
    "eval_dataloader = \<lparr>dataset = t3, shuffle = False, dl_batch_size = batch_size cfg\<rparr>"
    by (elim exE conjE) (rule that)
  have t: "dataset train_dataloader = t1" "dataset test_dataloader = t2"
    "dataset eval_dataloader = t3"
    using l by simp_all
  show ?thesis
    unfolding t ball_simps prod.case
    by (intro conjI TrueI one[OF p(1) d(1)] one[OF p(2) d(2)] one[OF p(3) d(3)])
qed

theorem tokenization_keeps_other_columns_witness:
  "\<exists>evs tr te ev. prepare settings7 world7 ''7'' = (evs, Inr (tr, te, ev))
     \<and> honours_max_length (tokenizer world7)
     \<and> parquet world7 (train_file ''7'') = Some [record_of ''a'' 1, record_of [] 0]
     \<and> length (dataset tr) = 2
     \<and> (\<exists>texto. dataset tr ! 0 =
           (record_of ''a'' 1 |` (- {''texto'', ''nota''})) ++ tokenizer world7 texto True 512)
     \<and> (\<exists>ids. (dataset tr ! 0) ''input_ids'' = Some (Seq ids) \<and> length ids \<le> 512)"
proof -
  have "case snd (prepare settings7 world7 ''7'') of Inr a \<Rightarrow> True | Inl e \<Rightarrow> False"
    by code_simp
  then obtain evs a where "prepare settings7 world7 ''7'' = (evs, Inr a)"
    using finishedI by blast
  then obtain tr te ev where p: "prepare settings7 world7 ''7'' = (evs, Inr (tr, te, ev))"
    by (cases a) auto
  have h: "honours_max_length (tokenizer world7)"
    using toy_tokenizer_honours_max_length by (simp add: world7_def)
  have f: "parquet world7 (train_file ''7'') = Some [record_of ''a'' 1, record_of [] 0]"
    by (simp add: world7_def train_file_def test_file_def eval_file_def)
  from tokenization_keeps_other_columns[OF p] obtain ds where
    d1: "parquet world7 (train_file ''7'') = Some ds" and
    d2: "length (dataset tr) = length ds" and
    d3: "\<forall>i<length ds. \<exists>texto.
            (ds ! i) ''texto'' = Some (Str texto) \<and>
            dataset tr ! i =
              ((ds ! i) |` (- {''texto'', ''nota''})) ++ tokenizer world7 texto True 512 \<and>
            dom (dataset tr ! i) =
              (dom (ds ! i) - {''texto'', ''nota''}) \<union> dom (tokenizer world7 texto True 512) \<and>
            (honours_max_length (tokenizer world7) \<longrightarrow>
               (\<exists>ids. (dataset tr ! i) ''input_ids'' = Some (Seq ids) \<and> length ids \<le> 512))"
    by auto
  from d1 f have ds: "ds = [record_of ''a'' 1, record_of [] 0]" by simp
  from d2 ds have l: "length (dataset tr) = 2" by simp
  from ds have "0 < length ds" and d0: "ds ! 0 = record_of ''a'' 1" by simp_all
  with d3 obtain texto where
    "dataset tr ! 0 = ((ds ! 0) |` (- {''texto'', ''nota''})) ++ tokenizer world7 texto True 512"
    and "honours_max_length (tokenizer world7) \<longrightarrow>
               (\<exists>ids. (dataset tr ! 0) ''input_ids'' = Some (Seq ids) \<and> length ids \<le> 512)"
    by blast
  with h d0 have "\<exists>texto. dataset tr ! 0 =
           (record_of ''a'' 1 |` (- {''texto'', ''nota''})) ++ tokenizer world7 texto True 512"
    and "\<exists>ids. (dataset tr ! 0) ''input_ids'' = Some (Seq ids) \<and> length ids \<le> 512"
    by auto
  with p h f l show ?thesis by blast
qed

text \<open>
  C4 as stated fails: a column other than \<open>texto\<close> and \<open>nota\<close> stays. The first
  train record of the concrete run keeps its \<open>labels\<close> column, which the tokenizer did
  not produce; \<open>texto\<close> and \<open>nota\<close> are gone.
\<close>

theorem tokenized_record_keeps_labels_counterexample:
  "map_option (map (\<lambda>r. r ''texto'')) (parquet world7 (train_file (argv world7 ! 1)))
     = Some [Some (Str ''a''), Some (Str [])]
   \<and> length (train_partition settings7 world7) = 2
   \<and> (train_partition settings7 world7 ! 0) ''labels'' = Some (Num 1)
   \<and> tokenizer world7 ''a'' True 512 ''labels'' = None
   \<and> (train_partition settings7 world7 ! 0) ''texto'' = None
   \<and> (train_partition settings7 world7 ! 0) ''nota'' = None"
  by code_simp

subsection \<open>C5\<close>

text \<open>
  C5. The confusion matrix of a finished run is square, and its dimension is the number
  of distinct label values among the eval references and predictions, whatever the
  configured number of classes; when those values are classes of the configuration but
  not all of them, the matrix is smaller than the configured class count.
\<close>

theorem confusion_matrix_dimension_observed:
  assumes "run cfg w = (evs, Inr out)"
  shows "length (o_cm out) = card (set (o_all_references out) \<union> set (o_all_predictions out))
       \<and> (\<forall>row\<in>set (o_cm out).
            length row = card (set (o_all_references out) \<union> set (o_all_predictions out)))
       \<and> (set (o_all_references out) \<union> set (o_all_predictions out)
            \<subset> int ` {0..<n_labels cfg} \<longrightarrow> length (o_cm out) < n_labels cfg)"
proof (intro conjI impI)
  note e = run_eval[OF assms]
  from confusion_matrix_dims[OF e(1)]
  show d: "length (o_cm out) = card (set (o_all_references out) \<union> set (o_all_predictions out))"
    and "\<forall>row\<in>set (o_cm out).
            length row = card (set (o_all_references out) \<union> set (o_all_predictions out))"
    by simp_all
  assume "set (o_all_references out) \<union> set (o_all_predictions out) \<subset> int ` {0..<n_labels cfg}"
  then have "card (set (o_all_references out) \<union> set (o_all_predictions out))
      < card (int ` {0..<n_labels cfg})"
    by (intro psubset_card_mono) simp_all
  also have "card (int ` {0..<n_labels cfg}) = n_labels cfg"
    by (simp add: card_image)
  finally show "length (o_cm out) < n_labels cfg"
    using d by simp
qed

theorem confusion_matrix_dimension_observed_witness:
  "\<exists>evs out. run settings7 world7 = (evs, Inr out)
     \<and> set (o_all_references out) \<union> set (o_all_predictions out) = {0, 2}
     \<and> {0, 2} \<subset> int ` {0..<n_labels settings7}
     \<and> n_labels settings7 = 3
     \<and> length (o_cm out) = 2 \<and> length (o_cm out) < n_labels settings7"
proof -
  obtain evs out where r: "run settings7 world7 = (evs, Inr out)"
    using run7_finishes by blast
  have "case snd (run settings7 world7) of
          Inr out \<Rightarrow> o_all_references out = [0, 2, 0] \<and> o_all_predictions out = [0, 2, 2]
        | Inl e \<Rightarrow> False"
    by code_simp
  with r have s: "set (o_all_references out) \<union> set (o_all_predictions out) = {0, 2}"
    by auto
  have n: "n_labels settings7 = 3"
    by (simp add: settings7_def)
  have "int 0 \<in> int ` {0..<3}" and "int 1 \<in> int ` {0..<3}" and "int 2 \<in> int ` {0..<3}"
    by (rule imageI, simp)+
  then have "{0, 2} \<subseteq> int ` {0..<3}" and "1 \<in> int ` {0..<3}"
    by simp_all
  moreover have "(1::int) \<notin> {0, 2}" by simp
  ultimately have p: "{0, 2} \<subset> int ` {0..<n_labels settings7}"
    unfolding n by blast
  from confusion_matrix_dimension_observed[OF r] s p n r show ?thesis
    by auto
qed

subsection \<open>C6\<close>

text \<open>
  C6. Building the confusion matrix from the two lists rearranged by one and the same
  permutation of the positions gives the matrix of the original lists; reversing both
  lists is one such rearrangement.
\<close>

theorem confusion_matrix_order_independent:
  assumes "length y_true = length y_pred"
    and "mset perm = mset [0..<length y_true]"
  shows "confusion_matrix (map (\<lambda>i. y_true ! i) perm) (map (\<lambda>i. y_pred ! i) perm)
           = confusion_matrix y_true y_pred
       \<and> confusion_matrix (rev y_true) (rev y_pred) = confusion_matrix y_true y_pred"
proof
  have "zip (map (\<lambda>i. y_true ! i) perm) (map (\<lambda>i. y_pred ! i) perm)
      = map (\<lambda>i. (y_true ! i, y_pred ! i)) perm"
    by (induction perm) simp_all
  then have "mset (zip (map (\<lambda>i. y_true ! i) perm) (map (\<lambda>i. y_pred ! i) perm))
      = mset (map (\<lambda>i. (y_true ! i, y_pred ! i)) perm)"
    by simp
  also have "\<dots> = image_mset (\<lambda>i. (y_true ! i, y_pred ! i)) (mset perm)"
    by simp
  also have "\<dots> = mset (map (\<lambda>i. (y_true ! i, y_pred ! i)) [0..<length y_true])"
    using assms(2) by simp
  also have "\<dots> = mset (zip y_true y_pred)"
    by (simp only: zip_positions[OF assms(1)])
  finally show "confusion_matrix (map (\<lambda>i. y_true ! i) perm) (map (\<lambda>i. y_pred ! i) perm)
           = confusion_matrix y_true y_pred"
    using assms(1) by (intro confusion_matrix_mset) simp_all
next
  have "mset (zip (rev y_true) (rev y_pred)) = mset (zip y_true y_pred)"
    using assms(1) by (simp add: zip_rev)
  then show "confusion_matrix (rev y_true) (rev y_pred) = confusion_matrix y_true y_pred"
    using assms(1) by (intro confusion_matrix_mset) simp_all
qed

theorem confusion_matrix_order_independent_witness:
  "length [0, 2, 1 :: int] = length [0, 1, 1 :: int]
   \<and> mset [2, 0, 1 :: nat] = mset [0..<length [0, 2, 1 :: int]]
   \<and> confusion_matrix [1, 0, 2] [1, 0, 1] = confusion_matrix [0, 2, 1] [0, 1, 1]
   \<and> confusion_matrix (rev [0, 2, 1]) (rev [0, 1, 1]) = confusion_matrix [0, 2, 1] [0, 1, 1]
   \<and> confusion_matrix [0, 2, 1] [0, 1, 1] = Inr [[1, 0, 0], [0, 1, 0], [0, 1, 0]]"
proof -
  have l: "length [0, 2, 1 :: int] = length [0, 1, 1 :: int]" by simp
  have p: "mset [2, 0, 1 :: nat] = mset [0..<length [0, 2, 1 :: int]]"
    by (simp add: upt_rec)
  have v: "confusion_matrix [0, 2, 1] [0, 1, 1] = Inr [[1, 0, 0], [0, 1, 0], [0, 1, 0]]"
    by code_simp
  from confusion_matrix_order_independent[OF l p] l p v show ?thesis
    by simp
qed

subsection \<open>C7\<close>

text \<open>
  C7. When one of the three input files of the dataset identifier is missing, the run
  ends with \<^verbatim>\<open>FileNotFoundError\<close> for a missing file and the model was never called
  on a batch. A run that ends in an exception, wherever it is raised, has written no
  JSON summary.
\<close>

theorem missing_file_or_exception_leaves_no_summary:
  "(2 \<le> length (argv w) \<and>
      (parquet w (train_file (argv w ! 1)) = None \<or>
       parquet w (test_file (argv w ! 1)) = None \<or>
       parquet w (eval_file (argv w ! 1)) = None) \<longrightarrow>
      (\<exists>p\<in>{train_file (argv w ! 1), test_file (argv w ! 1), eval_file (argv w ! 1)}.
         parquet w p = None \<and> snd (run cfg w) = Inl (FileNotFoundError p)) \<and>
      (\<forall>ev\<in>set (fst (run cfg w)). \<not> is_model_step ev))
   \<and> (snd (run cfg w) = Inl e \<longrightarrow> (\<forall>ev\<in>set (fst (run cfg w)). \<not> is_json_dump ev))"
  using run_missing_file[of w cfg] run_Inl_no_json[of cfg w e]
  by blast

theorem missing_file_or_exception_leaves_no_summary_witness:
  "2 \<le> length (argv world_no_eval_file)
   \<and> parquet world_no_eval_file (eval_file (argv world_no_eval_file ! 1)) = None
   \<and> snd (run settings7 world_no_eval_file) = Inl (FileNotFoundError (eval_file ''7''))
   \<and> list_all (\<lambda>ev. \<not> is_model_step ev) (fst (run settings7 world_no_eval_file))
   \<and> list_all (\<lambda>ev. \<not> is_json_dump ev) (fst (run settings7 world_no_eval_file))
   \<and> snd (run settings7 world_no_results_dir) = Inl (OSError (csv_file ''7'' 2))
   \<and> list_ex is_model_step (fst (run settings7 world_no_results_dir))
   \<and> list_all (\<lambda>ev. \<not> is_json_dump ev) (fst (run settings7 world_no_results_dir))"
proof -
  have a: "2 \<le> length (argv world_no_eval_file)"
    by code_simp
  have b: "parquet world_no_eval_file (eval_file (argv world_no_eval_file ! 1)) = None"
    by code_simp
  have "case snd (run settings7 world_no_eval_file) of
          Inl e \<Rightarrow> e = FileNotFoundError (eval_file ''7'') | Inr out \<Rightarrow> False"
    by code_simp
  then have c: "snd (run settings7 world_no_eval_file) = Inl (FileNotFoundError (eval_file ''7''))"
    by (simp split: sum.splits)
  have "case snd (run settings7 world_no_results_dir) of
          Inl e \<Rightarrow> e = OSError (csv_file ''7'' 2) | Inr out \<Rightarrow> False"
    by code_simp
  then have d: "snd (run settings7 world_no_results_dir) = Inl (OSError (csv_file ''7'' 2))"
    by (simp split: sum.splits)
  have e: "list_ex is_model_step (fst (run settings7 world_no_results_dir))"
    by code_simp
  from missing_file_or_exception_leaves_no_summary[of world_no_eval_file settings7
      "FileNotFoundError (eval_file ''7'')"] a b c
  have "list_all (\<lambda>ev. \<not> is_model_step ev) (fst (run settings7 world_no_eval_file))"
    and "list_all (\<lambda>ev. \<not> is_json_dump ev) (fst (run settings7 world_no_eval_file))"
    by (simp_all add: list_all_iff)
  moreover from missing_file_or_exception_leaves_no_summary[of world_no_results_dir settings7
      "OSError (csv_file ''7'' 2)"] d
  have "list_all (\<lambda>ev. \<not> is_json_dump ev) (fst (run settings7 world_no_results_dir))"
    by (simp add: list_all_iff)
  ultimately show ?thesis
    using a b c d e by simp
qed

subsection \<open>C8\<close>

text \<open>
  C8. In a run that reaches its end, the train phase of epoch \<open>e\<close> calls the model on
  the train records in the order of the \<open>e\<close>-th draw of the random permutation (one
  fresh draw for each epoch; a rearrangement of all positions when the generator gives
  permutations), while the test phase of every epoch and the final pass over the eval
  partition go through the positions \<open>0, 1, \<dots>\<close> in the order of the partition.
\<close>

theorem train_shuffled_test_eval_in_order:
  assumes "run cfg w = (evs, Inr out)"
  shows "(\<forall>epoch<num_epochs cfg.
            train_positions epoch evs = randperm w epoch (length (train_partition cfg w)) \<and>
            test_positions epoch evs = [0..<length (test_partition cfg w)])
       \<and> eval_positions evs = [0..<length (eval_partition cfg w)]
       \<and> ((\<forall>k n. mset (randperm w k n) = mset [0..<n]) \<longrightarrow>
            (\<forall>epoch<num_epochs cfg.
               mset (train_positions epoch evs) = mset [0..<length (train_partition cfg w)]))"
proof -
  let ?tr = "\<lparr>dataset = train_partition cfg w, shuffle = True, dl_batch_size = batch_size cfg\<rparr>"
  let ?te = "\<lparr>dataset = test_partition cfg w, shuffle = False, dl_batch_size = batch_size cfg\<rparr>"
  let ?pre = "[FromPretrained (model_name_or_path cfg), LoadDataset (train_file (argv w ! 1)),
       LoadDataset (test_file (argv w ! 1)), LoadDataset (eval_file (argv w ! 1)),
       LoadMetric ''accuracy'', FromPretrained (model_name_or_path cfg)]"
  let ?post = "[ToCsv (csv_file (argv w ! 1) (num_epochs cfg)) (o_cm out),
         SaveFig (png_file (argv w ! 1) (num_epochs cfg)),
         JsonDump (json_file (strftime (now w)) (argv w ! 1) (num_epochs cfg)) (o_results out) 4,
         Print ''finish!!'']"
  from assms obtain e4 s where
    evs: "evs = ?pre @ e4
      @ map EvalStep (chunks (batch_size cfg) [0..<length (eval_partition cfg w)]) @ ?post"
    and el: "epoch_loop w (n_labels cfg) ?tr ?te [0..<num_epochs cfg]
         \<lparr>model = pretrained w (model_name_or_path cfg) (n_labels cfg),
          metric = load_metric, draws = 0, metrics = Map.empty\<rparr> = (e4, Inr s)"
    and bs: "0 < batch_size cfg"
    by (rule run_events)
  have pre: "train_positions e ?pre = []" "test_positions e ?pre = []" "eval_positions ?pre = []"
    for e
    by (simp_all add: positions_Cons positions_Nil)
  have post: "train_positions e ?post = []" "test_positions e ?post = []"
    "eval_positions ?post = []" for e
    by (simp_all add: positions_Cons positions_Nil)
  have tr: "train_positions e evs = train_positions e e4"
    and te: "test_positions e evs = test_positions e e4"
    and ev: "eval_positions evs = eval_positions e4 @ [0..<length (eval_partition cfg w)]" for e
    unfolding evs positions_append pre post positions_eval_steps
    using bs by (simp_all add: concat_chunks)
  have loop: "\<forall>k<length [0..<num_epochs cfg].
           train_positions ([0..<num_epochs cfg] ! k) e4
             = randperm w (draws \<lparr>model = pretrained w (model_name_or_path cfg) (n_labels cfg),
                 metric = load_metric, draws = 0, metrics = Map.empty\<rparr> + k)
                 (length (dataset ?tr)) \<and>
           test_positions ([0..<num_epochs cfg] ! k) e4 = [0..<length (dataset ?te)]"
    and noeval: "eval_positions e4 = []"
    using epoch_loop_positions(1,3)[OF el] bs by simp_all
  have order: "\<forall>epoch<num_epochs cfg.
            train_positions epoch evs = randperm w epoch (length (train_partition cfg w)) \<and>
            test_positions epoch evs = [0..<length (test_partition cfg w)]"
  proof (intro allI impI)
    fix epoch assume "epoch < num_epochs cfg"
    with loop show "train_positions epoch evs = randperm w epoch (length (train_partition cfg w)) \<and>
            test_positions epoch evs = [0..<length (test_partition cfg w)]"
      unfolding tr te by auto
  qed
  moreover have "eval_positions evs = [0..<length (eval_partition cfg w)]"
    using ev noeval by simp
  moreover have "(\<forall>k n. mset (randperm w k n) = mset [0..<n]) \<longrightarrow>
            (\<forall>epoch<num_epochs cfg.
               mset (train_positions epoch evs) = mset [0..<length (train_partition cfg w)])"
    using order by simp
  ultimately show ?thesis by blast
qed

theorem train_shuffled_test_eval_in_order_witness:
  "\<exists>evs out. run settings7 world7 = (evs, Inr out)
     \<and> train_positions 0 evs = [1, 0] \<and> train_positions 1 evs = [0, 1]
     \<and> test_positions 0 evs = [0, 1] \<and> test_positions 1 evs = [0, 1]
     \<and> eval_positions evs = [0, 1, 2]
     \<and> (\<forall>k n. mset (randperm world7 k n) = mset [0..<n])
     \<and> mset (train_positions 0 evs) = mset [0..<length (train_partition settings7 world7)]"
proof -
  obtain evs out where r: "run settings7 world7 = (evs, Inr out)"
    using run7_finishes by blast
  have n: "num_epochs settings7 = 2"
    by (simp add: settings7_def)
  have l: "length (train_partition settings7 world7) = 2"
    "length (test_partition settings7 world7) = 2"
    "length (eval_partition settings7 world7) = 3"
    by code_simp+
  have p: "randperm world7 0 2 = [1, 0]" "randperm world7 1 2 = [0, 1]"
    by code_simp+
  have u: "[0..<2] = [0, 1]" "[0..<3] = [0, 1, 2]"
    by code_simp+
  have g: "\<forall>k n. mset (randperm world7 k n) = mset [0..<n]"
    by (simp add: world7_def)
  from train_shuffled_test_eval_in_order[OF r] g have
    "\<forall>epoch<2. mset (train_positions epoch evs) = mset [0..<2]"
    unfolding n l by blast
  then have m: "mset (train_positions 0 evs) = mset [0..<length (train_partition settings7 world7)]"
    unfolding l by simp
  from train_shuffled_test_eval_in_order[OF r] have
    "\<forall>epoch<2. train_positions epoch evs = randperm world7 epoch 2 \<and>
        test_positions epoch evs = [0..<2]"
    and e: "eval_positions evs = [0..<3]"
    unfolding n l by blast+
  then have "train_positions 0 evs = randperm world7 0 2 \<and> test_positions 0 evs = [0..<2]"
    and "train_positions 1 evs = randperm world7 1 2 \<and> test_positions 1 evs = [0..<2]"
    by simp_all
  with e r g m show ?thesis
    unfolding p u by blast
qed

subsection \<open>C9\<close>

text \<open>
  C9. A run that reaches the reporting stage dumps its summary exactly once, with
  indentation 4, to \<^verbatim>\<open>results/<timestamp>-conjunto<id>-<epochs>-epochs.json\<close>. The time
  stamp is day, month, year, hour and minute of the clock, joined by hyphens, day,
  month, hour and minute as two digits; the seconds do not enter the name.
\<close>

theorem summary_file_name_and_indent:
  assumes "run cfg w = (evs, Inr out)"
  shows "filter is_json_dump evs =
           [JsonDump (''results/'' @ strftime (now w) @ ''-conjunto'' @ argv w ! 1 @ ''-''
                        @ show_nat (num_epochs cfg) @ ''-epochs.json'')
              (o_results out) 4]
       \<and> r_date (o_results out) = strftime (now w)
       \<and> strftime (now w) =
           pad2 (day (now w)) @ ''-'' @ pad2 (month (now w)) @ ''-'' @ show_nat (year (now w))
             @ ''-'' @ pad2 (hour (now w)) @ ''-'' @ pad2 (minute (now w))
       \<and> (\<forall>n<100. pad2 n = [''0123456789'' ! (n div 10), ''0123456789'' ! (n mod 10)])
       \<and> (\<forall>s. strftime ((now w)\<lparr>second := s\<rparr>) = strftime (now w))"
proof -
  from assms obtain e4 s where
    evs: "evs =
      [FromPretrained (model_name_or_path cfg), LoadDataset (train_file (argv w ! 1)),
       LoadDataset (test_file (argv w ! 1)), LoadDataset (eval_file (argv w ! 1)),
       LoadMetric ''accuracy'', FromPretrained (model_name_or_path cfg)]
      @ e4
      @ map EvalStep (chunks (batch_size cfg) [0..<length (eval_partition cfg w)])
      @ [ToCsv (csv_file (argv w ! 1) (num_epochs cfg)) (o_cm out),
         SaveFig (png_file (argv w ! 1) (num_epochs cfg)),
         JsonDump (json_file (strftime (now w)) (argv w ! 1) (num_epochs cfg)) (o_results out) 4,
         Print ''finish!!'']"
    and el: "epoch_loop w (n_labels cfg)
         \<lparr>dataset = train_partition cfg w, shuffle = True, dl_batch_size = batch_size cfg\<rparr>
         \<lparr>dataset = test_partition cfg w, shuffle = False, dl_batch_size = batch_size cfg\<rparr>
         [0..<num_epochs cfg]
         \<lparr>model = pretrained w (model_name_or_path cfg) (n_labels cfg),
          metric = load_metric, draws = 0, metrics = Map.empty\<rparr> = (e4, Inr s)"
    and "0 < batch_size cfg"
    by (rule run_events)
  have e4: "filter is_json_dump e4 = []"
    using epoch_loop_no_json[of w "n_labels cfg"
        "\<lparr>dataset = train_partition cfg w, shuffle = True, dl_batch_size = batch_size cfg\<rparr>"
        "\<lparr>dataset = test_partition cfg w, shuffle = False, dl_batch_size = batch_size cfg\<rparr>"
        "[0..<num_epochs cfg]"
        "\<lparr>model = pretrained w (model_name_or_path cfg) (n_labels cfg),
          metric = load_metric, draws = 0, metrics = Map.empty\<rparr>"]
    unfolding el by simp
  have e5: "filter is_json_dump (map EvalStep xs) = []" for xs
    by (simp add: filter_empty_conv is_json_dump_def)
  have "filter is_json_dump evs =
      [JsonDump (json_file (strftime (now w)) (argv w ! 1) (num_epochs cfg)) (o_results out) 4]"
    unfolding evs by (simp add: e4 e5 is_json_dump_def)
  moreover from assms obtain c obs tr te ev e2 s e4 P T em cmx e5 e6 where
    "2 \<le> length (argv w)" and "c = argv w ! 1"
    and "prepare cfg w c = (e2, Inr (tr, te, ev))"
    and "epoch_loop w (n_labels cfg) tr te [0..<num_epochs cfg]
           \<lparr>model = pretrained w (model_name_or_path cfg) (n_labels cfg),
            metric = load_metric, draws = 0, metrics = Map.empty\<rparr> = (e4, Inr s)"
    and "final_eval w (n_labels cfg) ev s = (e5, Inr (P, T, em, cmx))"
    and rp: "report cfg w c obs (length (dataset tr), length (dataset te), length (dataset ev))
           (metrics s) (P, T, em, cmx) = (e6, Inr out)"
    and "evs = e2 @ [FromPretrained (model_name_or_path cfg)] @ e4 @ e5 @ e6"
    by (rule run_finished)
  moreover from report_Inr(4)[OF rp] have "r_date (o_results out) = strftime (now w)"
    by simp
  ultimately show ?thesis
    by (simp add: json_file_def strftime_def pad2_two_digits)
qed

theorem summary_file_name_and_indent_witness:
  "\<exists>evs out. run settings7 world7 = (evs, Inr out)
     \<and> filter is_json_dump evs =
         [JsonDump ''results/03-11-2026-14-05-conjunto7-2-epochs.json'' (o_results out) 4]
     \<and> r_date (o_results out) = ''03-11-2026-14-05''
     \<and> pad2 3 = ''03''
     \<and> strftime ((now world7)\<lparr>second := 59\<rparr>) = ''03-11-2026-14-05''"
proof -
  obtain evs out where r: "run settings7 world7 = (evs, Inr out)"
    using run7_finishes by blast
  have p: "''results/'' @ strftime (now world7) @ ''-conjunto'' @ argv world7 ! 1 @ ''-''
             @ show_nat (num_epochs settings7) @ ''-epochs.json''
         = ''results/03-11-2026-14-05-conjunto7-2-epochs.json''"
    by code_simp
  have d: "strftime (now world7) = ''03-11-2026-14-05''"
    by code_simp
  from summary_file_name_and_indent[OF r] have
    a: "filter is_json_dump evs =
           [JsonDump (''results/'' @ strftime (now world7) @ ''-conjunto'' @ argv world7 ! 1
                        @ ''-'' @ show_nat (num_epochs settings7) @ ''-epochs.json'')
              (o_results out) 4]"
    and b: "r_date (o_results out) = strftime (now world7)"
    and c: "\<forall>n<100. pad2 n = [''0123456789'' ! (n div 10), ''0123456789'' ! (n mod 10)]"
    and s: "\<forall>s. strftime ((now world7)\<lparr>second := s\<rparr>) = strftime (now world7)"
    by blast+
  from c have "pad2 3 = [''0123456789'' ! (3 div 10), ''0123456789'' ! (3 mod 10)]"
    by (rule allE[of _ 3]) simp
  then have c3: "pad2 3 = ''03''"
    by simp
  from s have s59: "strftime ((now world7)\<lparr>second := 59\<rparr>) = strftime (now world7)"
    by blast
  from a[unfolded p] b[unfolded d] s59[unfolded d] c3 r show ?thesis
    by blast
qed

subsection \<open>C10\<close>

text \<open>
  C10. The validation accuracy of the summary is the sum of the diagonal of the
  confusion matrix divided by the number of eval records.
\<close>

theorem validation_accuracy_is_diagonal_share:
  assumes "run cfg w = (evs, Inr out)"
  shows "r_validation_metric (o_results out) ''accuracy''
           = Some (of_nat (sum_list (map (\<lambda>i. o_cm out ! i ! i) [0..<length (o_cm out)]))
                   / of_nat (length (eval_partition cfg w)))
       \<and> r_eval_size (o_results out) = length (eval_partition cfg w)"
proof -
  note e = run_eval[OF assms]
  have "accuracy (o_all_predictions out) (o_all_references out)
      = of_nat (sum_list (map (\<lambda>i. o_cm out ! i ! i) [0..<length (o_cm out)]))
          / of_nat (length (eval_partition cfg w))"
    unfolding accuracy_def confusion_matrix_diagonal[OF e(1)] e(4) ..
  with e(5,7) show ?thesis by simp
qed

theorem validation_accuracy_is_diagonal_share_witness:
  "\<exists>evs out. run settings7 world7 = (evs, Inr out)
     \<and> o_cm out = [[1, 1], [0, 1]]
     \<and> length (eval_partition settings7 world7) = 3
     \<and> r_validation_metric (o_results out) ''accuracy'' = Some (2 / 3)"
proof -
  obtain evs out where r: "run settings7 world7 = (evs, Inr out)"
    using run7_finishes by blast
  have "case snd (run settings7 world7) of
          Inr out \<Rightarrow> o_cm out = [[1, 1], [0, 1]] | Inl e \<Rightarrow> False"
    by code_simp
  with r have c: "o_cm out = [[1, 1], [0, 1]]" by simp
  have n: "length (eval_partition settings7 world7) = 3"
    by code_simp
  have "sum_list (map (\<lambda>i. [[1, 1], [0, 1 :: nat]] ! i ! i) [0..<length [[1, 1], [0, 1 :: nat]]]) = 2"
    by code_simp
  with validation_accuracy_is_diagonal_share[OF r] c n
  have "r_validation_metric (o_results out) ''accuracy'' = Some (2 / 3)"
    by simp
  with r c n show ?thesis by blast
qed

end
